theory Spec2Isabelle
  imports Main "HOL-Library.Extended_Nat"
begin

section \<open>The host monitor of \<^verbatim>\<open>server.js\<close>\<close>

text \<open>
  The class \<^verbatim>\<open>Monitor\<close> keeps a registry \<^verbatim>\<open>this.hosts\<close> of connected media
  servers, a dictionary \<^verbatim>\<open>this._reconnectionRoutine\<close> of interval timers keyed by host
  id, and posts a text to a web hook on state changes. Host objects are shared between the
  registry and the closures of event listeners and timers, and are mutated in place, so the
  embedding keeps them in an explicit store: a reference is a natural number and
  \<open>heap\<close> maps references to objects. Everything that runs later in JavaScript (a timer
  that fires, a promise that settles, an event of a client) is an \<open>event\<close> of the
  embedding, and one event runs one callback to completion, as the Node.js event loop does.
  A leading underscore of a JavaScript name is dropped, and the field \<^verbatim>\<open>id\<close> is
  written \<open>id'\<close>.
\<close>

subsection \<open>Data\<close>

type_synonym ref = nat
type_synonym handle = nat

datatype error =
    ReferenceError string | TypeError string | SyntaxError string | HookError string
  | Unhandled string

text \<open>
  What \<^verbatim>\<open>http.request(opts, cb).end(body)\<close> does when \<^verbatim>\<open>emitHookWarning\<close> calls it:
  it takes the request, or it throws. The response callback only logs, so the answer to
  an accepted request plays no part in the monitor.
\<close>

datatype delivery = Accepted | Throws

text \<open>
  The constants read from the configuration, and the behaviour of the delivery
  collaborator: \<open>webhook E n\<close> is what the \<open>n\<close>-th request of the run meets.
  \<^verbatim>\<open>kurentoStartupRetries\<close> defaults to \<^verbatim>\<open>Infinity\<close>.
\<close>

record env =
  KMS_ARRAY :: "(string \<times> string) list"
  NOF_STARTUP_CONNECTION_RETRIES :: enat
  ENABLE_HEALTHCHECK :: bool
  HOST_NAME :: string
  webhook :: "nat \<Rightarrow> delivery"

record endpoint =
  url :: string
  ip :: string

text \<open>An element of \<^verbatim>\<open>tentativeHosts\<close>: \<^verbatim>\<open>{ ...th, retries: 0 }\<close>; a flag that
  was never assigned is \<^verbatim>\<open>undefined\<close>, which tests as false.\<close>

record tentative = endpoint +
  retries :: nat
  startupFailureNotified :: bool

text \<open>The object built by \<^verbatim>\<open>Monitor.connect\<close>, with the fields assigned to it later.\<close>

record host = endpoint +
  id' :: string
  client :: nat
  failureNotified :: bool
  healthcheckFailureNotified :: bool
  healthcheckerInterval :: "handle option"
  audio :: "nat option"
  video :: "nat option"

text \<open>
  A call of \<^verbatim>\<open>Promise.race([connect, failOver])\<close>. The race is settled by whichever
  side finishes first; \<open>origin\<close> records what the closures of the race captured.
\<close>

datatype origin = Startup nat | Reconnection ref string string

record race =
  origin :: origin
  connectDone :: bool
  failOverDone :: bool

text \<open>An active \<^verbatim>\<open>setInterval\<close> timer of \<^verbatim>\<open>_reconnectToServer\<close> with the
  \<^verbatim>\<open>host\<close>, \<^verbatim>\<open>id\<close> and \<^verbatim>\<open>url\<close> its callback captured.\<close>

record interval =
  handle :: handle
  ihost :: ref
  iid :: string
  iurl :: string

text \<open>
  The monitor: \<^verbatim>\<open>this.hosts\<close> and \<^verbatim>\<open>this._reconnectionRoutine\<close>, and what the
  runtime holds for it: the host objects, the tentative hosts of \<^verbatim>\<open>startHosts\<close>, the
  pending \<^verbatim>\<open>setTimeout\<close> calls of \<^verbatim>\<open>tryToConnect\<close> (\<open>scheduled\<close>, by index of the
  tentative host), the active reconnection timers, the races, the listeners registered
  on clients, and the requests made to the web hook. \<^verbatim>\<open>_reconnectionRoutine\<close> is an
  object used as a dictionary; its keys are host ids, twelve digits in base 32, which
  never collide with a property inherited from \<^verbatim>\<open>Object.prototype\<close>, so it is a map.
\<close>

record monitor =
  hosts :: "ref list"
  reconnectionRoutine :: "string \<rightharpoonup> handle"
  heap :: "ref \<Rightarrow> host"
  next_ref :: nat
  tentativeHosts :: "tentative list"
  scheduled :: "nat list"
  intervals :: "interval list"
  next_handle :: nat
  races :: "race list"
  listeners :: "(nat \<times> ref) list"
  alerts :: "string list"
  hookCalls :: nat

subsection \<open>The web hook\<close>

definition hookText :: "env \<Rightarrow> string \<Rightarrow> string \<Rightarrow> string \<Rightarrow> string" where
  "hookText E ev u i = HOST_NAME E @ '' triggered '' @ ev @ '' for Kurento '' @ u @ '' '' @ i"

text \<open>
  \<^verbatim>\<open>emitHookWarning\<close> has no \<^verbatim>\<open>try\<close>: what the request throws, it throws. \<open>alerts\<close>
  lists the texts of the requests that were taken.
\<close>

definition emitHookWarning :: "env \<Rightarrow> string \<Rightarrow> monitor \<Rightarrow> error option \<times> monitor" where
  "emitHookWarning E text m =
     (let m' = m\<lparr>hookCalls := Suc (hookCalls m)\<rparr> in
      case webhook E (hookCalls m) of
        Accepted \<Rightarrow> (None, m'\<lparr>alerts := alerts m' @ [text]\<rparr>)
      | Throws \<Rightarrow> (Some (HookError text), m'))"

subsection \<open>The registry\<close>

definition removeHost :: "string \<Rightarrow> monitor \<Rightarrow> monitor" where
  "removeHost hostId m = m\<lparr>hosts := filter (\<lambda>r. id' (heap m r) \<noteq> hostId) (hosts m)\<rparr>"

text \<open>\<^verbatim>\<open>addHost\<close> of an undefined host only logs a warning.\<close>

definition addHost :: "ref option \<Rightarrow> monitor \<Rightarrow> monitor" where
  "addHost h m =
     (case h of
        Some r \<Rightarrow> (let m' = removeHost (id' (heap m r)) m in m'\<lparr>hosts := hosts m' @ [r]\<rparr>)
      | None \<Rightarrow> m)"

definition hostStarted :: "string \<Rightarrow> string \<Rightarrow> monitor \<Rightarrow> bool" where
  "hostStarted u i m = list_ex (\<lambda>r. url (heap m r) = u \<and> ip (heap m r) = i) (hosts m)"

subsection \<open>Disconnection and reconnection\<close>

text \<open>\<^verbatim>\<open>client.on('disconnect', ...)\<close> and \<^verbatim>\<open>client.on('reconnected', ...)\<close>: one
  pair of listeners on the host's current client, bound to the host.\<close>

definition monitorConnectionState :: "ref \<Rightarrow> monitor \<Rightarrow> monitor" where
  "monitorConnectionState r m = m\<lparr>listeners := listeners m @ [(client (heap m r), r)]\<rparr>"

definition reconnectToServer :: "ref \<Rightarrow> monitor \<Rightarrow> monitor" where
  "reconnectToServer r m =
     (let i = id' (heap m r); u = url (heap m r) in
      case reconnectionRoutine m i of
        None \<Rightarrow>
          m\<lparr>reconnectionRoutine := (reconnectionRoutine m)(i \<mapsto> next_handle m),
            intervals := intervals m @ [\<lparr>handle = next_handle m, ihost = r, iid = i, iurl = u\<rparr>],
            next_handle := Suc (next_handle m)\<rparr>
      | Some t \<Rightarrow> m)"

definition clearInterval :: "handle option \<Rightarrow> monitor \<Rightarrow> monitor" where
  "clearInterval t m =
     (case t of
        None \<Rightarrow> m
      | Some x \<Rightarrow> m\<lparr>intervals := filter (\<lambda>j. handle j \<noteq> x) (intervals m)\<rparr>)"

text \<open>An assignment to fields of the host object \<open>r\<close>: \<open>f\<close> is the change.\<close>

definition assign :: "ref \<Rightarrow> (host \<Rightarrow> host) \<Rightarrow> monitor \<Rightarrow> monitor" where
  "assign r f m = m\<lparr>heap := (heap m)(r := f (heap m r))\<rparr>"

text \<open>
  \<^verbatim>\<open>_onDisconnection\<close>: the call of the hook is inside its own \<^verbatim>\<open>try\<close>, so the
  flag is set and the reconnection started whatever the hook does.
\<close>

definition onDisconnection :: "env \<Rightarrow> ref \<Rightarrow> monitor \<Rightarrow> monitor" where
  "onDisconnection E r m =
     (let u = url (heap m r); i = ip (heap m r);
          m1 = removeHost (id' (heap m r)) m;
          m2 = (if \<not> failureNotified (heap m1 r)
                then assign r (\<lambda>h. h\<lparr>failureNotified := True\<rparr>)
                       (snd (emitHookWarning E (hookText E ''MEDIA_SERVER_OFFLINE'' u i) m1))
                else m1);
          m3 = assign r (\<lambda>h. h\<lparr>audio := Some 0, video := Some 0\<rparr>) m2
      in reconnectToServer r m3)"

text \<open>
  The names that the body of \<^verbatim>\<open>_onReconnection (sameSession, host)\<close> can see: its two
  parameters and the bindings of the module. Unlike \<^verbatim>\<open>_onDisconnection\<close> it does not
  destructure \<^verbatim>\<open>host\<close>, so in its template literal \<^verbatim>\<open>url\<close> is the module
  \<^verbatim>\<open>require('url')\<close> and \<^verbatim>\<open>ip\<close> is bound nowhere: reading it throws. Were it
  bound, the text would be built from the module object and that binding, not from the
  host, and the flag would be cleared after the hook was called.
\<close>

definition module_names :: "string list" where
  "module_names =
     [''config'', ''mediaServerClient'', ''Logger'', ''http'', ''url'', ''os'', ''EslWrapper'',
      ''WebSocket'', ''KMS_ARRAY'', ''KMS_FAIL_AFTER'', ''NOF_STARTUP_CONNECTION_RETRIES'',
      ''HOST_RETRY_TIMER'', ''KMS_FAILOVER_TIMEOUT_MS'', ''WEBHOOK_URL'', ''HOST_NAME'',
      ''CONNECTION_HEALTH_CHECK_INTERVAL'', ''ENABLE_HEALTHCHECK'', ''MONITOR_FS'',
      ''ESL_PARAMS'', ''instance'', ''Monitor'', ''monitor'']"

definition resolve :: "string list \<Rightarrow> string \<Rightarrow> error option" where
  "resolve scope x = (if x \<in> set scope then None else Some (ReferenceError x))"

definition onReconnection :: "env \<Rightarrow> bool \<Rightarrow> ref \<Rightarrow> monitor \<Rightarrow> error option \<times> monitor" where
  "onReconnection E sameSession r m =
     (if \<not> sameSession then (None, onDisconnection E r m)
      else if failureNotified (heap m r) then
        (case resolve ([''sameSession'', ''host''] @ module_names) ''ip'' of
           Some e \<Rightarrow> (Some e, m)
         | None \<Rightarrow>
             (case emitHookWarning E
                     (hookText E ''MEDIA_SERVER_ONLINE'' ''[object Object]'' ''undefined'') m of
                (Some e, m') \<Rightarrow> (Some e, m')
              | (None, m') \<Rightarrow> (None, assign r (\<lambda>h. h\<lparr>failureNotified := False\<rparr>) m')))
      else (None, m))"

text \<open>
  The \<^verbatim>\<open>then\<close> of the race in \<^verbatim>\<open>_reconnectToServer\<close>; \<open>i\<close> is the \<^verbatim>\<open>id\<close>
  the timer's callback captured. An exception of the hook ends in the \<^verbatim>\<open>catch\<close> of
  the promise, which logs.
\<close>

definition reconnected :: "env \<Rightarrow> ref \<Rightarrow> string \<Rightarrow> monitor \<Rightarrow> monitor" where
  "reconnected E r i m =
     (let m1 = monitorConnectionState r m;
          m2 = clearInterval (reconnectionRoutine m1 i) m1;
          m3 = m2\<lparr>reconnectionRoutine := (reconnectionRoutine m2)(i := None)\<rparr>;
          m4 = addHost (Some r) m3
      in if failureNotified (heap m4 r) then
           (case emitHookWarning E
                   (hookText E ''MEDIA_SERVER_ONLINE'' (url (heap m4 r)) (ip (heap m4 r))) m4 of
              (Some e, m5) \<Rightarrow> m5
            | (None, m5) \<Rightarrow> assign r (\<lambda>h. h\<lparr>failureNotified := False\<rparr>) m5)
         else m4)"

subsection \<open>Start-up\<close>

text \<open>
  \<^verbatim>\<open>tryToConnect\<close> up to its \<^verbatim>\<open>await\<close>: the two guards, and the race of
  \<^verbatim>\<open>connectToHost\<close> is started. What follows the \<^verbatim>\<open>await\<close> runs when the race
  settles: \<open>startupConnected\<close> is the rest of the \<^verbatim>\<open>try\<close> block, \<open>startupFailed\<close>
  the \<^verbatim>\<open>catch\<close> block. An exception thrown by the hook inside the \<^verbatim>\<open>try\<close> block
  lands in the \<^verbatim>\<open>catch\<close> block; one thrown inside the \<^verbatim>\<open>catch\<close> block leaves
  the function before the flag is set and before the retry is scheduled.
\<close>

definition tryToConnect :: "env \<Rightarrow> nat \<Rightarrow> monitor \<Rightarrow> monitor" where
  "tryToConnect E k m =
     (let h = tentativeHosts m ! k in
      if enat (retries h) < NOF_STARTUP_CONNECTION_RETRIES E then
        (if \<not> hostStarted (url h) (ip h) m
         then m\<lparr>races := races m @ [\<lparr>origin = Startup k, connectDone = False, failOverDone = False\<rparr>]\<rparr>
         else m)
      else m)"

text \<open>An assignment to fields of the \<open>k\<close>-th tentative host.\<close>

definition assignTentative :: "nat \<Rightarrow> (tentative \<Rightarrow> tentative) \<Rightarrow> monitor \<Rightarrow> monitor" where
  "assignTentative k f m = m\<lparr>tentativeHosts := (tentativeHosts m)[k := f (tentativeHosts m ! k)]\<rparr>"

definition startupFailed :: "env \<Rightarrow> nat \<Rightarrow> monitor \<Rightarrow> error option \<times> monitor" where
  "startupFailed E k m =
     (let m1 = assignTentative k (\<lambda>h. h\<lparr>retries := Suc (retries h)\<rparr>) m;
          h = tentativeHosts m1 ! k
      in if \<not> startupFailureNotified h then
           (case emitHookWarning E (hookText E ''STARTUP_CONNECT_FAILURE'' (url h) (ip h)) m1 of
              (Some e, m2) \<Rightarrow> (Some e, m2)
            | (None, m2) \<Rightarrow>
                (let m3 = assignTentative k (\<lambda>h. h\<lparr>startupFailureNotified := True\<rparr>) m2
                 in (None, m3\<lparr>scheduled := scheduled m3 @ [k]\<rparr>)))
         else (None, m1\<lparr>scheduled := scheduled m1 @ [k]\<rparr>))"

text \<open>\<^verbatim>\<open>healthcheck\<close> starts the probe timer of a host once.\<close>

definition healthcheck :: "ref \<Rightarrow> monitor \<Rightarrow> monitor" where
  "healthcheck r m =
     (if healthcheckerInterval (heap m r) \<noteq> None then m
      else (assign r (\<lambda>h. h\<lparr>healthcheckerInterval := Some (next_handle m)\<rparr>) m)
             \<lparr>next_handle := Suc (next_handle m)\<rparr>)"

definition startupConnected :: "env \<Rightarrow> nat \<Rightarrow> ref \<Rightarrow> monitor \<Rightarrow> error option \<times> monitor" where
  "startupConnected E k r m =
     (let m1 = monitorConnectionState r m;
          m2 = addHost (Some r) m1;
          h = tentativeHosts m2 ! k
      in case (if startupFailureNotified h
               then emitHookWarning E (hookText E ''STARTUP_CONNECT_SUCCESS'' (url h) (ip h))
                      (assignTentative k (\<lambda>h. h\<lparr>startupFailureNotified := False\<rparr>) m2)
               else (None, m2)) of
           (Some e, m3) \<Rightarrow> startupFailed E k m3
         | (None, m3) \<Rightarrow> (None, if ENABLE_HEALTHCHECK E then healthcheck r m3 else m3))"

text \<open>The callback of \<^verbatim>\<open>Monitor.connect\<close> on success builds the host object;
  \<open>tok\<close> is what \<^verbatim>\<open>greatRandomToken(12)\<close> drew.\<close>

definition newHost :: "string \<Rightarrow> string \<Rightarrow> string \<Rightarrow> nat \<Rightarrow> host" where
  "newHost u i tok c =
     \<lparr>url = u, ip = i, id' = tok, client = c, failureNotified = False,
      healthcheckFailureNotified = False, healthcheckerInterval = None,
      audio = None, video = None\<rparr>"

definition connect :: "string \<Rightarrow> string \<Rightarrow> string \<Rightarrow> nat \<Rightarrow> monitor \<Rightarrow> ref \<times> monitor" where
  "connect u i tok c m =
     (next_ref m, m\<lparr>heap := (heap m)(next_ref m := newHost u i tok c), next_ref := Suc (next_ref m)\<rparr>)"

subsection \<open>The health check timer\<close>

text \<open>
  The callback of the timer of \<^verbatim>\<open>healthcheck\<close> after its \<^verbatim>\<open>await\<close>: \<open>ok\<close> says
  whether \<^verbatim>\<open>probeConnectionHealth\<close> resolved. \<open>healthcheckFailed\<close> is the
  \<^verbatim>\<open>catch\<close> block, which also receives what the hook throws in the \<^verbatim>\<open>try\<close> block.
\<close>

definition healthcheckFailed :: "env \<Rightarrow> ref \<Rightarrow> monitor \<Rightarrow> error option \<times> monitor" where
  "healthcheckFailed E r m =
     (if \<not> healthcheckFailureNotified (heap m r) then
        (case emitHookWarning E
                (hookText E ''WS_CONN_UNHEALTHY'' (url (heap m r)) (ip (heap m r))) m of
           (Some e, m') \<Rightarrow> (Some e, m')
         | (None, m') \<Rightarrow> (None, assign r (\<lambda>h. h\<lparr>healthcheckFailureNotified := True\<rparr>) m'))
      else (None, m))"

definition healthcheckTick :: "env \<Rightarrow> ref \<Rightarrow> bool \<Rightarrow> monitor \<Rightarrow> error option \<times> monitor" where
  "healthcheckTick E r ok m =
     (if ok then
        (if healthcheckFailureNotified (heap m r) then
           (case emitHookWarning E
                   (hookText E ''WS_CONN_HEALTHY'' (url (heap m r)) (ip (heap m r)))
                   (assign r (\<lambda>h. h\<lparr>healthcheckFailureNotified := False\<rparr>) m) of
              (Some e, m') \<Rightarrow> healthcheckFailed E r m'
            | (None, m') \<Rightarrow> (None, m'))
         else (None, m))
      else healthcheckFailed E r m)"

subsection \<open>The event loop\<close>

text \<open>
  \<open>TimeoutFires k\<close>: the \<^verbatim>\<open>setTimeout\<close> of the \<^verbatim>\<open>catch\<close> block calls
  \<^verbatim>\<open>tryToConnect\<close> for the \<open>k\<close>-th tentative host. \<open>ConnectResolves a tok c\<close>,
  \<open>ConnectRejects a\<close>: the media server client calls back for race \<open>a\<close>, with a
  client \<open>c\<close> or with an error. \<open>FailOverFires a\<close>: the \<^verbatim>\<open>failOver\<close> timer of race
  \<open>a\<close> rejects. \<open>IntervalFires t\<close>: the reconnection timer \<open>t\<close> ticks.
  \<open>ClientDisconnect n\<close>, \<open>ClientReconnected n sameSession\<close>: the client of the \<open>n\<close>-th
  pair of listeners emits the event. \<open>ProbeSettles r ok\<close>: a probe of the health check
  of host \<open>r\<close> settles. An event whose callback does not exist changes nothing.
\<close>

datatype event =
    TimeoutFires nat
  | ConnectResolves nat string nat
  | ConnectRejects nat
  | FailOverFires nat
  | IntervalFires handle
  | ClientDisconnect nat
  | ClientReconnected nat bool
  | ProbeSettles ref bool

definition rejected :: "env \<Rightarrow> nat \<Rightarrow> monitor \<Rightarrow> error option \<times> monitor" where
  "rejected E a m =
     (case origin (races m ! a) of
        Startup k \<Rightarrow> startupFailed E k m
      | Reconnection r i u \<Rightarrow> (None, m))"

text \<open>
  The callback of the client in \<^verbatim>\<open>_reconnectToServer\<close> assigns
  \<^verbatim>\<open>host.client = client\<close> before it resolves, whoever has won the race; the callback of
  \<^verbatim>\<open>Monitor.connect\<close> builds a fresh object instead.
\<close>

definition resolved :: "env \<Rightarrow> nat \<Rightarrow> string \<Rightarrow> nat \<Rightarrow> bool \<Rightarrow> monitor \<Rightarrow> error option \<times> monitor" where
  "resolved E a tok c won m =
     (case origin (races m ! a) of
        Startup k \<Rightarrow>
          (case connect (url (tentativeHosts m ! k)) (ip (tentativeHosts m ! k)) tok c m of
             (r, m') \<Rightarrow> if won then startupConnected E k r m' else (None, m'))
      | Reconnection r i u \<Rightarrow>
          (let m' = assign r (\<lambda>h. h\<lparr>client := c\<rparr>) m
           in (None, if won then reconnected E r i m' else m')))"

fun step :: "env \<Rightarrow> event \<Rightarrow> monitor \<Rightarrow> error option \<times> monitor" where
  "step E (TimeoutFires k) m =
     (if k \<in> set (scheduled m) \<and> k < length (tentativeHosts m)
      then (None, tryToConnect E k (m\<lparr>scheduled := remove1 k (scheduled m)\<rparr>))
      else (None, m))"
| "step E (ConnectResolves a tok c) m =
     (if a < length (races m) \<and> \<not> connectDone (races m ! a)
      then resolved E a tok c (\<not> failOverDone (races m ! a))
             (m\<lparr>races := (races m)[a := (races m ! a)\<lparr>connectDone := True\<rparr>]\<rparr>)
      else (None, m))"
| "step E (ConnectRejects a) m =
     (if a < length (races m) \<and> \<not> connectDone (races m ! a)
      then (let m' = m\<lparr>races := (races m)[a := (races m ! a)\<lparr>connectDone := True\<rparr>]\<rparr>
            in if failOverDone (races m ! a) then (None, m') else rejected E a m')
      else (None, m))"
| "step E (FailOverFires a) m =
     (if a < length (races m) \<and> \<not> failOverDone (races m ! a)
      then (let m' = m\<lparr>races := (races m)[a := (races m ! a)\<lparr>failOverDone := True\<rparr>]\<rparr>
            in if connectDone (races m ! a) then (None, m') else rejected E a m')
      else (None, m))"
| "step E (IntervalFires t) m =
     (case find (\<lambda>j. handle j = t) (intervals m) of
        Some j \<Rightarrow>
          (None, m\<lparr>races := races m @
             [\<lparr>origin = Reconnection (ihost j) (iid j) (iurl j), connectDone = False,
               failOverDone = False\<rparr>]\<rparr>)
      | None \<Rightarrow> (None, m))"
| "step E (ClientDisconnect n) m =
     (if n < length (listeners m) then (None, onDisconnection E (snd (listeners m ! n)) m)
      else (None, m))"
| "step E (ClientReconnected n sameSession) m =
     (if n < length (listeners m) then onReconnection E sameSession (snd (listeners m ! n)) m
      else (None, m))"
| "step E (ProbeSettles r ok) m =
     (if r < next_ref m \<and> healthcheckerInterval (heap m r) \<noteq> None
      then healthcheckTick E r ok m
      else (None, m))"

text \<open>
  An exception that leaves a callback ends that callback. Whether the process survives it
  depends on the runtime; here the loop goes on, so that every run of the program is a
  run of the embedding or a prefix of one.
\<close>

definition run :: "env \<Rightarrow> event list \<Rightarrow> monitor \<Rightarrow> monitor" where
  "run E es m = fold (\<lambda>e. snd \<circ> step E e) es m"

text \<open>The constructor, and \<^verbatim>\<open>startHosts\<close>: \<^verbatim>\<open>tryToConnect\<close> is called for every
  configured host in turn, and each call returns at its \<^verbatim>\<open>await\<close>.\<close>

definition Monitor :: "env \<Rightarrow> monitor" where
  "Monitor E =
     \<lparr>hosts = [], reconnectionRoutine = Map.empty, heap = (\<lambda>r. newHost [] [] [] 0), next_ref = 0,
      tentativeHosts =
        map (\<lambda>(u, i). \<lparr>url = u, ip = i, retries = 0, startupFailureNotified = False\<rparr>) (KMS_ARRAY E),
      scheduled = [], intervals = [], next_handle = 0, races = [], listeners = [],
      alerts = [], hookCalls = 0\<rparr>"

definition startHosts :: "env \<Rightarrow> monitor" where
  "startHosts E = fold (tryToConnect E) [0 ..< length (KMS_ARRAY E)] (Monitor E)"

subsection \<open>Invariants\<close>

text \<open>Every reference kept by the monitor, by a listener, by a timer or by a race is one
  that \<open>connect\<close> has allocated.\<close>

fun origin_ok :: "nat \<Rightarrow> origin \<Rightarrow> bool" where
  "origin_ok n (Startup k) = True"
| "origin_ok n (Reconnection r i u) = (r < n)"

definition refs_ok :: "monitor \<Rightarrow> bool" where
  "refs_ok m \<longleftrightarrow>
     (\<forall>r \<in> set (hosts m). r < next_ref m) \<and>
     (\<forall>l \<in> set (listeners m). snd l < next_ref m) \<and>
     (\<forall>j \<in> set (intervals m). ihost j < next_ref m) \<and>
     (\<forall>x \<in> set (races m). origin_ok (next_ref m) (origin x))"

text \<open>The ids of the registry entries, in registry order.\<close>

definition ids :: "monitor \<Rightarrow> string list" where
  "ids m = map (\<lambda>r. id' (heap m r)) (hosts m)"

subsection \<open>Sample configurations and states\<close>

definition example_env :: env where
  "example_env =
     \<lparr>KMS_ARRAY = [(''ws://kms1:8888/kurento'', ''10.0.0.1''), (''ws://kms2:8888/kurento'', ''10.0.0.2'')],
      NOF_STARTUP_CONNECTION_RETRIES = \<infinity>, ENABLE_HEALTHCHECK = True, HOST_NAME = ''monitor'',
      webhook = (\<lambda>n. Accepted)\<rparr>"

text \<open>Both configured hosts have connected at the first attempt.\<close>

definition two_connected :: monitor where
  "two_connected =
     run example_env [ConnectResolves 0 ''0123456789ab'' 1, ConnectResolves 1 ''cdefghijklmn'' 2]
       (startHosts example_env)"

text \<open>A reconnection timer is well formed when the dictionary names it under the id it
  was created for and its handle has been issued; handles are never issued twice.\<close>

definition timers_ok :: "monitor \<Rightarrow> bool" where
  "timers_ok m \<longleftrightarrow>
     (\<forall>j \<in> set (intervals m).
        reconnectionRoutine m (iid j) = Some (handle j) \<and> handle j < next_handle m) \<and>
     distinct (map handle (intervals m))"

definition timers_of :: "string \<Rightarrow> monitor \<Rightarrow> interval list" where
  "timers_of i m = filter (\<lambda>j. iid j = i) (intervals m)"

text \<open>The first host has connected and its client has then emitted
  \<^verbatim>\<open>disconnect\<close>.\<close>

definition one_disconnected :: monitor where
  "one_disconnected =
     run example_env
       [ConnectResolves 0 ''0123456789ab'' 1, ConnectResolves 1 ''cdefghijklmn'' 2,
        ClientDisconnect 0]
       (startHosts example_env)"

subsection \<open>Alerts of one host\<close>


text \<open>The texts that a step from \<open>m\<close> to \<open>m'\<close> handed to the web hook.\<close>

definition emitted :: "monitor \<Rightarrow> monitor \<Rightarrow> string list" where
  "emitted m m' = drop (length (alerts m)) (alerts m')"

definition alertText :: "env \<Rightarrow> string \<Rightarrow> monitor \<Rightarrow> ref \<Rightarrow> string" where
  "alertText E ev m r = hookText E ev (url (heap m r)) (ip (heap m r))"





text \<open>The pairs (url, address) of the registry entries, in registry order.\<close>

definition endpoints :: "monitor \<Rightarrow> (string \<times> string) list" where
  "endpoints m = map (\<lambda>r. (url (heap m r), ip (heap m r))) (hosts m)"

text \<open>A configuration that lists the same media server twice.\<close>

definition duplicate_env :: env where
  "duplicate_env =
     \<lparr>KMS_ARRAY = [(''ws://kms1:8888/kurento'', ''10.0.0.1''), (''ws://kms1:8888/kurento'', ''10.0.0.1'')],
      NOF_STARTUP_CONNECTION_RETRIES = \<infinity>, ENABLE_HEALTHCHECK = False, HOST_NAME = ''monitor'',
      webhook = (\<lambda>n. Accepted)\<rparr>"

text \<open>A web hook whose request throws, as \<^verbatim>\<open>https.request\<close> does for a
  \<^verbatim>\<open>webhookURL\<close> that starts with \<^verbatim>\<open>http:\<close>.\<close>

definition throwing_env :: env where
  "throwing_env =
     \<lparr>KMS_ARRAY = [(''ws://kms1:8888/kurento'', ''10.0.0.1'')],
      NOF_STARTUP_CONNECTION_RETRIES = \<infinity>, ENABLE_HEALTHCHECK = False, HOST_NAME = ''monitor'',
      webhook = (\<lambda>n. Throws)\<rparr>"

text \<open>
  Host 0 is disconnected and its reconnection timer ticks twice, which starts the races
  2 and 3. The \<^verbatim>\<open>failOver\<close> timer of race 2 fires, so race 2 is lost; race 3 connects
  with client 5 and the host is registered again.
\<close>

definition reconnected_once :: monitor where
  "reconnected_once =
     run example_env
       [ClientDisconnect 0, IntervalFires 2, IntervalFires 2, FailOverFires 2,
        ConnectResolves 3 [] 5]
       two_connected"

text \<open>The health check of host \<open>r\<close> is running: \<^verbatim>\<open>healthcheck\<close> has started its
  timer, which happens only when \<^verbatim>\<open>enableConnHealthcheck\<close> is set.\<close>

definition probing :: "ref \<Rightarrow> monitor \<Rightarrow> bool" where
  "probing r m \<longleftrightarrow> r < next_ref m \<and> healthcheckerInterval (heap m r) \<noteq> None"

subsection \<open>Start-up against a server that never answers\<close>

text \<open>The connect collaborator always fails: no connection attempt ever calls back with a
  client.\<close>

fun connect_fails :: "event \<Rightarrow> bool" where
  "connect_fails (ConnectResolves a tok c) = False"
| "connect_fails e = True"

definition settled :: "race \<Rightarrow> bool" where
  "settled x \<longleftrightarrow> connectDone x \<or> failOverDone x"

text \<open>The attempts that have ended; when no connection is ever made, each of them ended
  in a refusal or in a time-out.\<close>

definition failures :: "monitor \<Rightarrow> nat" where
  "failures m = length (filter settled (races m))"

text \<open>
  The states of the start-up of a single configured host \<open>(u, i)\<close> with at most two
  attempts: \<open>k\<close> attempts have failed, and either the next one is in flight, or its
  retry timer is pending, or both attempts are used up.
\<close>

definition startup_inv :: "env \<Rightarrow> string \<Rightarrow> string \<Rightarrow> monitor \<Rightarrow> bool" where
  "startup_inv E u i m \<longleftrightarrow>
     (let k = retries (tentativeHosts m ! 0);
          p = length (filter (\<lambda>x. \<not> settled x) (races m))
      in length (tentativeHosts m) = 1 \<and>
         url (tentativeHosts m ! 0) = u \<and> ip (tentativeHosts m ! 0) = i \<and>
         startupFailureNotified (tentativeHosts m ! 0) = (0 < k) \<and>
         hosts m = [] \<and> listeners m = [] \<and> intervals m = [] \<and> next_ref m = 0 \<and>
         (\<forall>x \<in> set (races m). origin x = Startup 0) \<and>
         alerts m = (if k = 0 then [] else [hookText E ''STARTUP_CONNECT_FAILURE'' u i]) \<and>
         length (races m) = k + p \<and>
         (p = 1 \<and> scheduled m = [] \<and> k < 2 \<or>
          p = 0 \<and> scheduled m = [0] \<and> 1 \<le> k \<and> k \<le> 2 \<or>
          p = 0 \<and> scheduled m = [] \<and> k = 2))"

definition two_retries_env :: env where
  "two_retries_env =
     \<lparr>KMS_ARRAY = [(''ws://kms1:8888/kurento'', ''10.0.0.1'')],
      NOF_STARTUP_CONNECTION_RETRIES = 2, ENABLE_HEALTHCHECK = True, HOST_NAME = ''monitor'',
      webhook = (\<lambda>n. Accepted)\<rparr>"

text \<open>The first attempt is refused, the retry timer fires, and the second attempt times out.\<close>

definition two_failures :: "event list" where
  "two_failures = [ConnectRejects 0, TimeoutFires 0, FailOverFires 1]"

text \<open>What may still arrive afterwards: the retry timer, and the late halves of both races.\<close>

definition aftermath :: "event list" where
  "aftermath = [TimeoutFires 0, ConnectRejects 1, TimeoutFires 0, FailOverFires 0]"

section \<open>The side-channel probe\<close>

text \<open>
  \<^verbatim>\<open>probeConnectionHealth\<close> opens a WebSocket and returns a promise. Its state: whether
  the variable \<^verbatim>\<open>ws\<close> still holds the socket (\<^verbatim>\<open>destroyWs\<close> sets it to
  \<^verbatim>\<open>null\<close>), whether \<^verbatim>\<open>ws.close()\<close> has been called, which listeners are
  registered, whether the ping has been sent, and the promise.
\<close>

datatype outcome = Pending | Resolved | Rejected

record probe =
  ws :: bool
  closeCalled :: bool
  onOpen :: bool
  onClose :: bool
  onError :: bool
  onMessage :: bool
  pingSent :: bool
  promise :: outcome

text \<open>
  What \<^verbatim>\<open>JSON.parse(data)\<close> and the destructuring of \<^verbatim>\<open>{ result, id }\<close> give
  for a message: \<^verbatim>\<open>JSON.parse\<close> throws a SyntaxError (\<open>Garbage\<close>), or it gives
  \<^verbatim>\<open>null\<close> and the destructuring throws a TypeError (\<open>Null\<close>), or there is an
  \<^verbatim>\<open>id\<close>, a number or not, and \<^verbatim>\<open>result.value\<close>, a string or not.
\<close>

datatype message = Garbage | Null | Reply "int option" "string option"

datatype ws_event = Open | Close | Error | Message message

definition KMS_FAILOVER_TIMEOUT_MS :: nat where
  "KMS_FAILOVER_TIMEOUT_MS = 15000"

text \<open>The socket is created with \<^verbatim>\<open>handshakeTimeout: KMS_FAILOVER_TIMEOUT_MS\<close>; the
  three \<^verbatim>\<open>once\<close> listeners are registered. No timer is started.\<close>

definition probeConnectionHealth :: probe where
  "probeConnectionHealth =
     \<lparr>ws = True, closeCalled = False, onOpen = True, onClose = True, onError = True,
      onMessage = False, pingSent = False, promise = Pending\<rparr>"

definition removeWsListeners :: "probe \<Rightarrow> probe" where
  "removeWsListeners p = p\<lparr>onClose := False, onError := False, onOpen := False\<rparr>"

definition destroyWs :: "probe \<Rightarrow> probe" where
  "destroyWs p = p\<lparr>closeCalled := True, ws := False\<rparr>"

text \<open>A promise is settled once: \<^verbatim>\<open>resolve\<close> and \<^verbatim>\<open>reject\<close> of a settled
  promise do nothing.\<close>

definition settle :: "outcome \<Rightarrow> probe \<Rightarrow> probe" where
  "settle x p = (if promise p = Pending then p\<lparr>promise := x\<rparr> else p)"

text \<open>The ping has \<^verbatim>\<open>id: 1\<close>; the test of the message listener is
  \<^verbatim>\<open>id === ping.id && result && result.value === 'pong'\<close>.\<close>

fun matching :: "message \<Rightarrow> bool" where
  "matching Garbage = False"
| "matching Null = False"
| "matching (Reply i v) = (i = Some 1 \<and> v = Some ''pong'')"

text \<open>
  One event of the socket. A \<^verbatim>\<open>once\<close> listener is removed before it runs. The message
  listener is never removed; when it sees a matching pong after \<^verbatim>\<open>ws\<close> was set to
  \<^verbatim>\<open>null\<close>, \<^verbatim>\<open>removeWsListeners\<close> throws. An \<^verbatim>\<open>error\<close> event that finds no
  listener is thrown by the emitter.
\<close>

fun probe_step :: "ws_event \<Rightarrow> probe \<Rightarrow> error option \<times> probe" where
  "probe_step Open p =
     (if onOpen p then (None, p\<lparr>onOpen := False, onMessage := True, pingSent := True\<rparr>)
      else (None, p))"
| "probe_step Close p =
     (if onClose p
      then (None, settle Rejected (destroyWs (removeWsListeners (p\<lparr>onClose := False\<rparr>))))
      else (None, p))"
| "probe_step Error p =
     (if onError p
      then (None, settle Rejected (destroyWs (removeWsListeners (p\<lparr>onError := False\<rparr>))))
      else (Some (Unhandled ''error''), p))"
| "probe_step (Message d) p =
     (if onMessage p then
        (case d of
           Garbage \<Rightarrow> (Some (SyntaxError ''JSON.parse''), p)
         | Null \<Rightarrow> (Some (TypeError ''null''), p)
         | Reply i v \<Rightarrow>
             if matching d then
               (if ws p then (None, settle Resolved (destroyWs (removeWsListeners p)))
                else (Some (TypeError ''ws is null''), p))
             else (None, p))
      else (None, p))"

definition probe_run :: "ws_event list \<Rightarrow> probe \<Rightarrow> probe" where
  "probe_run es p = fold (\<lambda>e. snd \<circ> probe_step e) es p"

text \<open>The probe at time \<open>T\<close>, given the events of the socket with the times, in
  milliseconds after the call, at which they arrive.\<close>

definition probe_at :: "nat \<Rightarrow> (nat \<times> ws_event) list \<Rightarrow> probe" where
  "probe_at T tes = probe_run (map snd (takeWhile (\<lambda>te. fst te \<le> T) tes)) probeConnectionHealth"

text \<open>The probe has settled and cleaned up: the promise is settled, \<^verbatim>\<open>ws.close()\<close>
  was called, and the listeners for open, close and error are gone.\<close>

definition finished :: "probe \<Rightarrow> bool" where
  "finished p \<longleftrightarrow>
     promise p \<noteq> Pending \<and> closeCalled p \<and> \<not> ws p \<and> \<not> onOpen p \<and> \<not> onClose p \<and> \<not> onError p"

text \<open>The probe is waiting: for the connection to open, or for the pong.\<close>

definition waiting :: "probe \<Rightarrow> bool" where
  "waiting p \<longleftrightarrow>
     promise p = Pending \<and> \<not> closeCalled p \<and> ws p \<and> onClose p \<and> onError p \<and>
     (onOpen p \<longleftrightarrow> \<not> onMessage p)"

text \<open>What a trace tells about the state it leads to.\<close>

definition trace_inv :: "ws_event list \<Rightarrow> probe \<Rightarrow> bool" where
  "trace_inv es p \<longleftrightarrow>
     (onMessage p \<longrightarrow> Open \<in> set es) \<and>
     (waiting p \<and> Open \<in> set es \<longrightarrow> onMessage p) \<and>
     (promise p = Resolved \<longrightarrow> onMessage p \<and> (\<exists>d. matching d \<and> Message d \<in> set es)) \<and>
     (promise p = Rejected \<longrightarrow> Close \<in> set es \<or> Error \<in> set es)"

text \<open>The connection opens after 10 ms and the server never answers the ping.\<close>

definition silent_server :: "(nat \<times> ws_event) list" where
  "silent_server = [(10, Open)]"

text \<open>The connection opens, a reply to some other request arrives, then the pong.\<close>

definition healthy_server :: "ws_event list" where
  "healthy_server = [Open, Message (Reply (Some 7) (Some ''pong'')), Message (Reply (Some 1) (Some ''pong''))]"

subsection \<open>Configurations whose web hook throws\<close>


text \<open>One host with the health check enabled; the request to the web hook always throws,
  or only the second request does.\<close>

definition throwing_probe_env :: env where
  "throwing_probe_env =
     \<lparr>KMS_ARRAY = [(''ws://kms1:8888/kurento'', ''10.0.0.1'')],
      NOF_STARTUP_CONNECTION_RETRIES = \<infinity>, ENABLE_HEALTHCHECK = True, HOST_NAME = ''monitor'',
      webhook = (\<lambda>n. Throws)\<rparr>"

definition flaky_probe_env :: env where
  "flaky_probe_env =
     \<lparr>KMS_ARRAY = [(''ws://kms1:8888/kurento'', ''10.0.0.1'')],
      NOF_STARTUP_CONNECTION_RETRIES = \<infinity>, ENABLE_HEALTHCHECK = True, HOST_NAME = ''monitor'',
      webhook = (\<lambda>n. if n = 1 then Throws else Accepted)\<rparr>"

text \<open>The configured host has connected at the first attempt.\<close>

definition one_connected :: "env \<Rightarrow> monitor" where
  "one_connected E = run E [ConnectResolves 0 ''0123456789ab'' 1] (startHosts E)"

section \<open>Properties\<close>

subsection \<open>What the primitive operations leave alone\<close>

lemma emit_frame [simp]:
  "hosts (snd (emitHookWarning E t m)) = hosts m"
  "reconnectionRoutine (snd (emitHookWarning E t m)) = reconnectionRoutine m"
  "heap (snd (emitHookWarning E t m)) = heap m"
  "next_ref (snd (emitHookWarning E t m)) = next_ref m"
  "tentativeHosts (snd (emitHookWarning E t m)) = tentativeHosts m"
  "scheduled (snd (emitHookWarning E t m)) = scheduled m"
  "intervals (snd (emitHookWarning E t m)) = intervals m"
  "next_handle (snd (emitHookWarning E t m)) = next_handle m"
  "races (snd (emitHookWarning E t m)) = races m"
  "listeners (snd (emitHookWarning E t m)) = listeners m"
  by (simp_all add: emitHookWarning_def Let_def split: delivery.splits)

lemma emit_alerts:
  "alerts (snd (emitHookWarning E t m)) =
     alerts m @ (if fst (emitHookWarning E t m) = None then [t] else [])"
  by (simp add: emitHookWarning_def Let_def split: delivery.splits)

lemma removeHost_frame [simp]:
  "reconnectionRoutine (removeHost i m) = reconnectionRoutine m"
  "heap (removeHost i m) = heap m"
  "next_ref (removeHost i m) = next_ref m"
  "tentativeHosts (removeHost i m) = tentativeHosts m"
  "scheduled (removeHost i m) = scheduled m"
  "intervals (removeHost i m) = intervals m"
  "next_handle (removeHost i m) = next_handle m"
  "races (removeHost i m) = races m"
  "listeners (removeHost i m) = listeners m"
  "alerts (removeHost i m) = alerts m"
  "hookCalls (removeHost i m) = hookCalls m"
  by (simp_all add: removeHost_def)

lemma addHost_frame [simp]:
  "reconnectionRoutine (addHost x m) = reconnectionRoutine m"
  "heap (addHost x m) = heap m"
  "next_ref (addHost x m) = next_ref m"
  "tentativeHosts (addHost x m) = tentativeHosts m"
  "scheduled (addHost x m) = scheduled m"
  "intervals (addHost x m) = intervals m"
  "next_handle (addHost x m) = next_handle m"
  "races (addHost x m) = races m"
  "listeners (addHost x m) = listeners m"
  "alerts (addHost x m) = alerts m"
  "hookCalls (addHost x m) = hookCalls m"
  by (simp_all add: addHost_def Let_def split: option.splits)

lemma monitorConnectionState_frame [simp]:
  "hosts (monitorConnectionState r m) = hosts m"
  "reconnectionRoutine (monitorConnectionState r m) = reconnectionRoutine m"
  "heap (monitorConnectionState r m) = heap m"
  "next_ref (monitorConnectionState r m) = next_ref m"
  "tentativeHosts (monitorConnectionState r m) = tentativeHosts m"
  "scheduled (monitorConnectionState r m) = scheduled m"
  "intervals (monitorConnectionState r m) = intervals m"
  "next_handle (monitorConnectionState r m) = next_handle m"
  "races (monitorConnectionState r m) = races m"
  "alerts (monitorConnectionState r m) = alerts m"
  "hookCalls (monitorConnectionState r m) = hookCalls m"
  by (simp_all add: monitorConnectionState_def)

lemma reconnectToServer_frame [simp]:
  "hosts (reconnectToServer r m) = hosts m"
  "heap (reconnectToServer r m) = heap m"
  "next_ref (reconnectToServer r m) = next_ref m"
  "tentativeHosts (reconnectToServer r m) = tentativeHosts m"
  "scheduled (reconnectToServer r m) = scheduled m"
  "races (reconnectToServer r m) = races m"
  "listeners (reconnectToServer r m) = listeners m"
  "alerts (reconnectToServer r m) = alerts m"
  "hookCalls (reconnectToServer r m) = hookCalls m"
  by (simp_all add: reconnectToServer_def Let_def split: option.splits)

lemma clearInterval_frame [simp]:
  "hosts (clearInterval t m) = hosts m"
  "reconnectionRoutine (clearInterval t m) = reconnectionRoutine m"
  "heap (clearInterval t m) = heap m"
  "next_ref (clearInterval t m) = next_ref m"
  "tentativeHosts (clearInterval t m) = tentativeHosts m"
  "scheduled (clearInterval t m) = scheduled m"
  "next_handle (clearInterval t m) = next_handle m"
  "races (clearInterval t m) = races m"
  "listeners (clearInterval t m) = listeners m"
  "alerts (clearInterval t m) = alerts m"
  "hookCalls (clearInterval t m) = hookCalls m"
  by (simp_all add: clearInterval_def split: option.splits)

lemma assign_frame [simp]:
  "hosts (assign r f m) = hosts m"
  "reconnectionRoutine (assign r f m) = reconnectionRoutine m"
  "heap (assign r f m) x = (if x = r then f (heap m r) else heap m x)"
  "next_ref (assign r f m) = next_ref m"
  "tentativeHosts (assign r f m) = tentativeHosts m"
  "scheduled (assign r f m) = scheduled m"
  "intervals (assign r f m) = intervals m"
  "next_handle (assign r f m) = next_handle m"
  "races (assign r f m) = races m"
  "listeners (assign r f m) = listeners m"
  "alerts (assign r f m) = alerts m"
  "hookCalls (assign r f m) = hookCalls m"
  by (simp_all add: assign_def)

lemma assignTentative_frame [simp]:
  "hosts (assignTentative k f m) = hosts m"
  "reconnectionRoutine (assignTentative k f m) = reconnectionRoutine m"
  "heap (assignTentative k f m) = heap m"
  "next_ref (assignTentative k f m) = next_ref m"
  "scheduled (assignTentative k f m) = scheduled m"
  "intervals (assignTentative k f m) = intervals m"
  "next_handle (assignTentative k f m) = next_handle m"
  "races (assignTentative k f m) = races m"
  "listeners (assignTentative k f m) = listeners m"
  "alerts (assignTentative k f m) = alerts m"
  "hookCalls (assignTentative k f m) = hookCalls m"
  by (simp_all add: assignTentative_def)

subsection \<open>References held by the monitor point to allocated objects\<close>

lemma origin_ok_mono: "origin_ok n x \<Longrightarrow> n \<le> n' \<Longrightarrow> origin_ok n' x"
  by (cases x) auto

lemma refs_ok_cong:
  "hosts m' = hosts m \<Longrightarrow> listeners m' = listeners m \<Longrightarrow> intervals m' = intervals m \<Longrightarrow>
   races m' = races m \<Longrightarrow> next_ref m' = next_ref m \<Longrightarrow> refs_ok m' = refs_ok m"
  by (simp add: refs_ok_def)

lemma refs_ok_emit [simp]: "refs_ok (snd (emitHookWarning E t m)) = refs_ok m"
  by (rule refs_ok_cong) simp_all

lemma refs_ok_assign [simp]: "refs_ok (assign r f m) = refs_ok m"
  by (rule refs_ok_cong) simp_all

lemma refs_ok_assignTentative [simp]: "refs_ok (assignTentative r f m) = refs_ok m"
  by (rule refs_ok_cong) simp_all

lemma refs_ok_removeHost: "refs_ok m \<Longrightarrow> refs_ok (removeHost i m)"
  by (auto simp: refs_ok_def removeHost_def)

lemma refs_ok_addHost: "refs_ok m \<Longrightarrow> r < next_ref m \<Longrightarrow> refs_ok (addHost (Some r) m)"
  by (auto simp: refs_ok_def addHost_def removeHost_def)

lemma refs_ok_monitorConnectionState:
  "refs_ok m \<Longrightarrow> r < next_ref m \<Longrightarrow> refs_ok (monitorConnectionState r m)"
  by (auto simp: refs_ok_def monitorConnectionState_def)

lemma refs_ok_reconnectToServer:
  "refs_ok m \<Longrightarrow> r < next_ref m \<Longrightarrow> refs_ok (reconnectToServer r m)"
  by (auto simp: refs_ok_def reconnectToServer_def Let_def split: option.splits)

lemma refs_ok_clearInterval: "refs_ok m \<Longrightarrow> refs_ok (clearInterval t m)"
  by (auto simp: refs_ok_def clearInterval_def split: option.splits)

lemma refs_ok_updates [simp]:
  "refs_ok (m\<lparr>reconnectionRoutine := rr\<rparr>) = refs_ok m"
  "refs_ok (m\<lparr>scheduled := sc\<rparr>) = refs_ok m"
  "refs_ok (m\<lparr>next_handle := nh\<rparr>) = refs_ok m"
  "refs_ok (m\<lparr>tentativeHosts := th\<rparr>) = refs_ok m"
  by (simp_all add: refs_ok_def)

lemma refs_ok_onDisconnection:
  "refs_ok m \<Longrightarrow> r < next_ref m \<Longrightarrow> refs_ok (onDisconnection E r m)"
  by (simp add: onDisconnection_def Let_def refs_ok_reconnectToServer refs_ok_removeHost)

lemma next_ref_onDisconnection [simp]: "next_ref (onDisconnection E r m) = next_ref m"
  by (simp add: onDisconnection_def Let_def)

lemma refs_ok_onReconnection:
  "refs_ok m \<Longrightarrow> r < next_ref m \<Longrightarrow> refs_ok (snd (onReconnection E s r m))"
  by (simp add: onReconnection_def refs_ok_onDisconnection case_prod_unfold split: option.splits)

lemma next_ref_onReconnection [simp]: "next_ref (snd (onReconnection E s r m)) = next_ref m"
  by (simp add: onReconnection_def case_prod_unfold split: option.splits)

lemma refs_ok_reconnected:
  "refs_ok m \<Longrightarrow> r < next_ref m \<Longrightarrow> refs_ok (reconnected E r i m)"
  by (simp add: reconnected_def Let_def case_prod_unfold refs_ok_addHost refs_ok_clearInterval
      refs_ok_monitorConnectionState split: option.splits)

lemma next_ref_reconnected [simp]: "next_ref (reconnected E r i m) = next_ref m"
  by (simp add: reconnected_def Let_def case_prod_unfold split: option.splits)

lemma refs_ok_tryToConnect: "refs_ok m \<Longrightarrow> refs_ok (tryToConnect E k m)"
  by (auto simp: tryToConnect_def Let_def refs_ok_def)

lemma next_ref_tryToConnect [simp]: "next_ref (tryToConnect E k m) = next_ref m"
  by (simp add: tryToConnect_def Let_def)

lemma refs_ok_startupFailed: "refs_ok m \<Longrightarrow> refs_ok (snd (startupFailed E k m))"
  by (simp add: startupFailed_def Let_def case_prod_unfold split: option.splits)

lemma next_ref_startupFailed [simp]: "next_ref (snd (startupFailed E k m)) = next_ref m"
  by (simp add: startupFailed_def Let_def case_prod_unfold split: option.splits)

lemma refs_ok_healthcheck [simp]: "refs_ok (healthcheck r m) = refs_ok m"
  by (simp add: healthcheck_def)

lemma next_ref_healthcheck [simp]: "next_ref (healthcheck r m) = next_ref m"
  by (simp add: healthcheck_def)

lemma refs_ok_startupConnected:
  "refs_ok m \<Longrightarrow> r < next_ref m \<Longrightarrow> refs_ok (snd (startupConnected E k r m))"
  by (simp add: startupConnected_def Let_def case_prod_unfold refs_ok_startupFailed
      refs_ok_addHost refs_ok_monitorConnectionState split: option.splits)

lemma next_ref_startupConnected [simp]:
  "next_ref (snd (startupConnected E k r m)) = next_ref m"
  by (simp add: startupConnected_def Let_def case_prod_unfold split: option.splits)

lemma refs_ok_healthcheckFailed [simp]: "refs_ok (snd (healthcheckFailed E r m)) = refs_ok m"
  by (simp add: healthcheckFailed_def case_prod_unfold split: option.splits)

lemma refs_ok_healthcheckTick [simp]: "refs_ok (snd (healthcheckTick E r ok m)) = refs_ok m"
  by (simp add: healthcheckTick_def case_prod_unfold split: option.splits)

lemma next_ref_healthcheckFailed [simp]: "next_ref (snd (healthcheckFailed E r m)) = next_ref m"
  by (simp add: healthcheckFailed_def case_prod_unfold split: option.splits)

lemma next_ref_healthcheckTick [simp]: "next_ref (snd (healthcheckTick E r ok m)) = next_ref m"
  by (simp add: healthcheckTick_def case_prod_unfold split: option.splits)

lemma refs_ok_connect:
  "refs_ok m \<Longrightarrow> refs_ok (snd (connect u i tok c m)) \<and> fst (connect u i tok c m) < next_ref (snd (connect u i tok c m))"
  by (auto simp: connect_def refs_ok_def less_Suc_eq intro: origin_ok_mono)

lemma refs_ok_rejected: "refs_ok m \<Longrightarrow> refs_ok (snd (rejected E a m))"
  by (simp add: rejected_def refs_ok_startupFailed split: origin.splits)

lemma refs_ok_races_update:
  "refs_ok m \<Longrightarrow> a < length (races m) \<Longrightarrow> origin x = origin (races m ! a) \<Longrightarrow>
   refs_ok (m\<lparr>races := (races m)[a := x]\<rparr>)"
  by (auto simp: refs_ok_def dest!: set_update_subset_insert[THEN subsetD])

lemma refs_ok_race:
  "refs_ok m \<Longrightarrow> a < length (races m) \<Longrightarrow> origin (races m ! a) = Reconnection r i u \<Longrightarrow>
   r < next_ref m"
  by (auto simp: refs_ok_def dest!: nth_mem)

lemma refs_ok_resolved:
  assumes "refs_ok m" "a < length (races m)"
  shows "refs_ok (snd (resolved E a tok c won m))"
proof (cases "origin (races m ! a)")
  case (Startup k)
  then show ?thesis
    using refs_ok_connect [OF assms(1)]
    by (simp add: resolved_def case_prod_unfold refs_ok_startupConnected)
next
  case (Reconnection r i u)
  then have "r < next_ref m" using assms by (rule_tac refs_ok_race)
  then show ?thesis
    using assms(1) Reconnection by (simp add: resolved_def Let_def refs_ok_reconnected)
qed

lemma refs_ok_listener:
  "refs_ok m \<Longrightarrow> n < length (listeners m) \<Longrightarrow> snd (listeners m ! n) < next_ref m"
  by (auto simp: refs_ok_def dest!: nth_mem)

lemma refs_ok_step: "refs_ok m \<Longrightarrow> refs_ok (snd (step E e m))"
proof (cases e)
  case (TimeoutFires k)
  then show "refs_ok m \<Longrightarrow> ?thesis" by (simp add: refs_ok_tryToConnect)
next
  case (ConnectResolves a tok c)
  then show "refs_ok m \<Longrightarrow> ?thesis"
    by (simp add: refs_ok_resolved refs_ok_races_update)
next
  case (ConnectRejects a)
  then show "refs_ok m \<Longrightarrow> ?thesis"
    by (simp add: Let_def refs_ok_rejected refs_ok_races_update)
next
  case (FailOverFires a)
  then show "refs_ok m \<Longrightarrow> ?thesis"
    by (simp add: Let_def refs_ok_rejected refs_ok_races_update)
next
  case (IntervalFires t)
  then show "refs_ok m \<Longrightarrow> ?thesis"
    by (auto simp: refs_ok_def find_Some_iff split: option.splits)
next
  case (ClientDisconnect n)
  then show "refs_ok m \<Longrightarrow> ?thesis"
    by (simp add: refs_ok_onDisconnection refs_ok_listener)
next
  case (ClientReconnected n s)
  then show "refs_ok m \<Longrightarrow> ?thesis"
    by (simp add: refs_ok_onReconnection refs_ok_listener)
next
  case (ProbeSettles r ok)
  then show "refs_ok m \<Longrightarrow> ?thesis" by simp
qed

subsection \<open>The ids of the registry\<close>

lemma ids_cong:
  "hosts m' = hosts m \<Longrightarrow> (\<And>r. r \<in> set (hosts m) \<Longrightarrow> id' (heap m' r) = id' (heap m r)) \<Longrightarrow>
   ids m' = ids m"
  by (simp add: ids_def)

lemma ids_emit [simp]: "ids (snd (emitHookWarning E t m)) = ids m"
  by (rule ids_cong) simp_all

lemma ids_monitorConnectionState [simp]: "ids (monitorConnectionState r m) = ids m"
  by (rule ids_cong) simp_all

lemma ids_reconnectToServer [simp]: "ids (reconnectToServer r m) = ids m"
  by (rule ids_cong) simp_all

lemma ids_clearInterval [simp]: "ids (clearInterval t m) = ids m"
  by (rule ids_cong) simp_all

lemma ids_assignTentative [simp]: "ids (assignTentative k f m) = ids m"
  by (rule ids_cong) simp_all

lemma ids_assign: "id' (f (heap m r)) = id' (heap m r) \<Longrightarrow> ids (assign r f m) = ids m"
  by (rule ids_cong) simp_all

lemma ids_updates [simp]:
  "ids (m\<lparr>reconnectionRoutine := rr\<rparr>) = ids m"
  "ids (m\<lparr>scheduled := sc\<rparr>) = ids m"
  "ids (m\<lparr>next_handle := nh\<rparr>) = ids m"
  "ids (m\<lparr>tentativeHosts := th\<rparr>) = ids m"
  "ids (m\<lparr>races := ra\<rparr>) = ids m"
  by (simp_all add: ids_def)

lemma removeHost_distinct: "distinct (ids m) \<Longrightarrow> distinct (ids (removeHost i m))"
  by (simp add: ids_def removeHost_def distinct_map_filter)

lemma removeHost_absent: "i \<notin> set (ids (removeHost i m))"
  by (auto simp: ids_def removeHost_def)

lemma addHost_distinct: "distinct (ids m) \<Longrightarrow> distinct (ids (addHost x m))"
proof (cases x)
  case None
  then show "distinct (ids m) \<Longrightarrow> ?thesis" by (simp add: addHost_def)
next
  case (Some r)
  assume d: "distinct (ids m)"
  have "ids (addHost x m) = ids (removeHost (id' (heap m r)) m) @ [id' (heap m r)]"
    using Some by (simp add: addHost_def Let_def ids_def)
  then show ?thesis
    using removeHost_distinct [OF d, of "id' (heap m r)"] removeHost_absent [of "id' (heap m r)" m]
    by simp
qed

lemma distinct_onDisconnection:
  "distinct (ids m) \<Longrightarrow> distinct (ids (onDisconnection E r m))"
  by (simp add: onDisconnection_def Let_def ids_assign removeHost_distinct)

lemma distinct_onReconnection:
  "distinct (ids m) \<Longrightarrow> distinct (ids (snd (onReconnection E s r m)))"
  by (simp add: onReconnection_def case_prod_unfold distinct_onDisconnection ids_assign
      split: option.splits)

lemma distinct_reconnected:
  "distinct (ids m) \<Longrightarrow> distinct (ids (reconnected E r i m))"
  by (simp add: reconnected_def Let_def case_prod_unfold ids_assign addHost_distinct
      split: option.splits)

lemma ids_tryToConnect [simp]: "ids (tryToConnect E k m) = ids m"
  by (simp add: tryToConnect_def Let_def)

lemma ids_startupFailed [simp]: "ids (snd (startupFailed E k m)) = ids m"
  by (simp add: startupFailed_def Let_def case_prod_unfold split: option.splits)

lemma ids_healthcheck [simp]: "ids (healthcheck r m) = ids m"
  by (simp add: healthcheck_def ids_assign)

lemma distinct_startupConnected:
  "distinct (ids m) \<Longrightarrow> distinct (ids (snd (startupConnected E k r m)))"
  by (simp add: startupConnected_def Let_def case_prod_unfold addHost_distinct
      split: option.splits)

lemma ids_healthcheckFailed [simp]: "ids (snd (healthcheckFailed E r m)) = ids m"
  by (simp add: healthcheckFailed_def case_prod_unfold ids_assign split: option.splits)

lemma ids_healthcheckTick [simp]: "ids (snd (healthcheckTick E r ok m)) = ids m"
  by (simp add: healthcheckTick_def case_prod_unfold ids_assign split: option.splits)

lemma ids_connect: "refs_ok m \<Longrightarrow> ids (snd (connect u i tok c m)) = ids m"
  by (rule ids_cong) (auto simp: connect_def refs_ok_def)

lemma ids_rejected [simp]: "ids (snd (rejected E a m)) = ids m"
  by (simp add: rejected_def split: origin.splits)

lemma distinct_resolved:
  "refs_ok m \<Longrightarrow> distinct (ids m) \<Longrightarrow> distinct (ids (snd (resolved E a tok c won m)))"
  by (simp add: resolved_def Let_def case_prod_unfold distinct_startupConnected ids_connect
      distinct_reconnected ids_assign split: origin.splits)

lemma distinct_step:
  "refs_ok m \<Longrightarrow> distinct (ids m) \<Longrightarrow> distinct (ids (snd (step E e m)))"
  by (cases e)
    (simp_all add: Let_def distinct_resolved distinct_onDisconnection distinct_onReconnection
      refs_ok_races_update split: option.splits)

lemma run_Nil [simp]: "run E [] m = m"
  by (simp add: run_def)

lemma run_Cons [simp]: "run E (e # es) m = run E es (snd (step E e m))"
  by (simp add: run_def)

lemma run_append [simp]: "run E (es @ es') m = run E es' (run E es m)"
  by (simp add: run_def)

lemma refs_ok_run: "refs_ok m \<Longrightarrow> refs_ok (run E es m)"
  by (induction es arbitrary: m) (simp_all add: refs_ok_step)

lemma distinct_run: "refs_ok m \<Longrightarrow> distinct (ids m) \<Longrightarrow> distinct (ids (run E es m))"
  by (induction es arbitrary: m) (simp_all add: refs_ok_step distinct_step)

lemma refs_ok_startHosts: "refs_ok (startHosts E)"
proof -
  have "refs_ok m \<Longrightarrow> refs_ok (fold (tryToConnect E) ks m)" for ks m
    by (induction ks arbitrary: m) (simp_all add: refs_ok_tryToConnect)
  moreover have "refs_ok (Monitor E)"
    by (simp add: refs_ok_def Monitor_def)
  ultimately show ?thesis by (simp add: startHosts_def)
qed

lemma ids_startHosts: "ids (startHosts E) = []"
proof -
  have "ids (fold (tryToConnect E) ks m) = ids m" for ks m
    by (induction ks arbitrary: m) simp_all
  then show ?thesis by (simp add: startHosts_def) (simp add: ids_def Monitor_def)
qed

lemma ids_removeHost: "ids (removeHost i m) = removeAll i (ids m)"
  by (simp add: ids_def removeHost_def removeAll_filter_not_eq filter_map comp_def) metis

lemma ids_addHost:
  "ids (addHost (Some r) m) = removeAll (id' (heap m r)) (ids m) @ [id' (heap m r)]"
  using ids_removeHost [of "id' (heap m r)" m]
  by (simp add: addHost_def Let_def ids_def)

text \<open>
  C10. The registry never holds two entries with the same id. \<^verbatim>\<open>removeHost\<close> only
  removes: the ids after it are the ids before it without the given one. \<^verbatim>\<open>addHost\<close>
  removes every entry with the id of the incoming host and then appends that host, and
  does nothing for an undefined host. So both keep the ids of a registry pairwise
  distinct, and the ids are pairwise distinct in every state that the monitor reaches
  from \<^verbatim>\<open>startHosts\<close>, whatever events arrive.
\<close>

theorem registry_ids_unique:
  "ids (removeHost i m) = removeAll i (ids m) \<and>
   ids (addHost (Some r) m) = removeAll (id' (heap m r)) (ids m) @ [id' (heap m r)] \<and>
   ids (addHost None m) = ids m \<and>
   (distinct (ids m) \<longrightarrow> distinct (ids (addHost x m)) \<and> distinct (ids (removeHost i m))) \<and>
   distinct (ids (run E es (startHosts E)))"
proof -
  have "ids (addHost None m) = ids m"
    by (simp add: addHost_def)
  moreover have "distinct (ids (run E es (startHosts E)))"
    by (rule distinct_run) (simp_all add: refs_ok_startHosts ids_startHosts)
  ultimately show ?thesis
    using ids_removeHost [of i m] ids_addHost [of r m] addHost_distinct [of m x]
      removeHost_distinct [of m i]
    by blast
qed

theorem registry_ids_unique_witness:
  "distinct (ids two_connected) \<and>
   distinct (ids (addHost (Some 0) two_connected)) \<and>
   distinct (ids (removeHost ''0123456789ab'' two_connected))"
proof -
  have h: "distinct (ids two_connected)" by code_simp
  show ?thesis
    using h registry_ids_unique [of "''0123456789ab''" two_connected 0 "Some 0" example_env "[]"]
    by blast
qed

subsection \<open>Reconnection timers\<close>

lemma timers_ok_cong:
  "intervals m' = intervals m \<Longrightarrow> reconnectionRoutine m' = reconnectionRoutine m \<Longrightarrow>
   next_handle m' = next_handle m \<Longrightarrow> timers_ok m' = timers_ok m"
  by (simp add: timers_ok_def)

lemma timers_ok_emit [simp]: "timers_ok (snd (emitHookWarning E t m)) = timers_ok m"
  by (rule timers_ok_cong) simp_all

lemma timers_ok_removeHost [simp]: "timers_ok (removeHost i m) = timers_ok m"
  by (rule timers_ok_cong) simp_all

lemma timers_ok_addHost [simp]: "timers_ok (addHost x m) = timers_ok m"
  by (rule timers_ok_cong) simp_all

lemma timers_ok_monitorConnectionState [simp]:
  "timers_ok (monitorConnectionState r m) = timers_ok m"
  by (rule timers_ok_cong) simp_all

lemma timers_ok_assign [simp]: "timers_ok (assign r f m) = timers_ok m"
  by (rule timers_ok_cong) simp_all

lemma timers_ok_assignTentative [simp]: "timers_ok (assignTentative k f m) = timers_ok m"
  by (rule timers_ok_cong) simp_all

lemma timers_ok_updates [simp]:
  "timers_ok (m\<lparr>scheduled := sc\<rparr>) = timers_ok m"
  "timers_ok (m\<lparr>races := ra\<rparr>) = timers_ok m"
  "timers_ok (m\<lparr>tentativeHosts := th\<rparr>) = timers_ok m"
  by (simp_all add: timers_ok_def)

lemma timers_ok_next_handle:
  "timers_ok m \<Longrightarrow> timers_ok (m\<lparr>next_handle := Suc (next_handle m)\<rparr>)"
  by (auto simp: timers_ok_def less_Suc_eq)

lemma timers_ok_reconnectToServer: "timers_ok m \<Longrightarrow> timers_ok (reconnectToServer r m)"
  by (fastforce simp: timers_ok_def reconnectToServer_def Let_def less_Suc_eq split: option.splits)

lemma timers_ok_cleared:
  "timers_ok m \<Longrightarrow>
   timers_ok ((clearInterval (reconnectionRoutine m i) m)
               \<lparr>reconnectionRoutine := (reconnectionRoutine m)(i := None)\<rparr>)"
  by (auto simp: timers_ok_def clearInterval_def distinct_map_filter split: option.splits)

lemma timers_ok_onDisconnection: "timers_ok m \<Longrightarrow> timers_ok (onDisconnection E r m)"
  by (simp add: onDisconnection_def Let_def timers_ok_reconnectToServer)

lemma timers_ok_onReconnection: "timers_ok m \<Longrightarrow> timers_ok (snd (onReconnection E s r m))"
  by (simp add: onReconnection_def case_prod_unfold timers_ok_onDisconnection split: option.splits)

lemma timers_ok_reconnected: "timers_ok m \<Longrightarrow> timers_ok (reconnected E r i m)"
  using timers_ok_cleared [of "monitorConnectionState r m" i]
  by (simp add: reconnected_def Let_def case_prod_unfold split: option.splits)

lemma timers_ok_tryToConnect [simp]: "timers_ok (tryToConnect E k m) = timers_ok m"
  by (simp add: tryToConnect_def Let_def)

lemma timers_ok_startupFailed [simp]: "timers_ok (snd (startupFailed E k m)) = timers_ok m"
  by (simp add: startupFailed_def Let_def case_prod_unfold split: option.splits)

lemma timers_ok_healthcheck: "timers_ok m \<Longrightarrow> timers_ok (healthcheck r m)"
  using timers_ok_next_handle [of "assign r f m" for f]
  by (simp add: healthcheck_def)

lemma timers_ok_startupConnected:
  "timers_ok m \<Longrightarrow> timers_ok (snd (startupConnected E k r m))"
  by (simp add: startupConnected_def Let_def case_prod_unfold timers_ok_healthcheck
      split: option.splits)

lemma timers_ok_healthcheckFailed [simp]:
  "timers_ok (snd (healthcheckFailed E r m)) = timers_ok m"
  by (simp add: healthcheckFailed_def case_prod_unfold split: option.splits)

lemma timers_ok_healthcheckTick [simp]:
  "timers_ok (snd (healthcheckTick E r ok m)) = timers_ok m"
  by (simp add: healthcheckTick_def case_prod_unfold split: option.splits)

lemma timers_ok_connect [simp]: "timers_ok (snd (connect u i tok c m)) = timers_ok m"
  by (simp add: connect_def timers_ok_def)

lemma timers_ok_rejected [simp]: "timers_ok (snd (rejected E a m)) = timers_ok m"
  by (simp add: rejected_def split: origin.splits)

lemma timers_ok_resolved: "timers_ok m \<Longrightarrow> timers_ok (snd (resolved E a tok c won m))"
  by (simp add: resolved_def Let_def case_prod_unfold timers_ok_startupConnected
      timers_ok_reconnected split: origin.splits)

lemma timers_ok_step: "timers_ok m \<Longrightarrow> timers_ok (snd (step E e m))"
  by (cases e)
    (simp_all add: Let_def timers_ok_resolved timers_ok_onDisconnection timers_ok_onReconnection
      split: option.splits)

lemma timers_ok_run: "timers_ok m \<Longrightarrow> timers_ok (run E es m)"
  by (induction es arbitrary: m) (simp_all add: timers_ok_step)

lemma timers_ok_startHosts: "timers_ok (startHosts E)"
proof -
  have "timers_ok (fold (tryToConnect E) ks m) = timers_ok m" for ks m
    by (induction ks arbitrary: m) simp_all
  then show ?thesis by (simp add: startHosts_def) (simp add: timers_ok_def Monitor_def)
qed

lemma filter_same_key:
  "distinct (map f xs) \<Longrightarrow> (\<And>x. x \<in> set xs \<Longrightarrow> P x \<Longrightarrow> f x = c) \<Longrightarrow> length (filter P xs) \<le> 1"
proof (induction xs)
  case Nil
  then show ?case by simp
next
  case (Cons x xs)
  show ?case
  proof (cases "P x")
    case True
    have "filter P xs = []"
    proof (rule ccontr)
      assume "filter P xs \<noteq> []"
      then obtain y where y: "y \<in> set xs" "P y"
        by (auto simp: filter_empty_conv)
      then have "f y = c" "f x = c" using Cons.prems(2) True by auto
      then show False using Cons.prems(1) y(1) by auto
    qed
    then show ?thesis using True by simp
  next
    case False
    then show ?thesis using Cons by simp
  qed
qed

lemma timers_ok_at_most_one: "timers_ok m \<Longrightarrow> length (timers_of i m) \<le> 1"
  unfolding timers_of_def
  by (rule filter_same_key [where f = handle and c = "the (reconnectionRoutine m i)"])
     (auto simp: timers_ok_def)

lemma timers_ok_present:
  "timers_ok m \<Longrightarrow> timers_of i m \<noteq> [] \<Longrightarrow> reconnectionRoutine m i \<noteq> None"
  by (auto simp: timers_ok_def timers_of_def filter_empty_conv)

text \<open>
  C2. In every state reached from \<^verbatim>\<open>startHosts\<close>, whatever events arrive and in
  whatever order, at most one active reconnection timer is bound to any host id; and
  when a timer is active for the id of a host, \<^verbatim>\<open>_reconnectToServer\<close> for that host
  changes nothing: no second timer is created.
\<close>

theorem one_reconnection_timer:
  "length (timers_of i (run E es (startHosts E))) \<le> 1 \<and>
   (timers_of (id' (heap (run E es (startHosts E)) r)) (run E es (startHosts E)) \<noteq> [] \<longrightarrow>
      reconnectToServer r (run E es (startHosts E)) = run E es (startHosts E))"
proof -
  have ok: "timers_ok (run E es (startHosts E))"
    by (simp add: timers_ok_run timers_ok_startHosts)
  show ?thesis
    using timers_ok_at_most_one [OF ok, of i]
      timers_ok_present [OF ok, of "id' (heap (run E es (startHosts E)) r)"]
    by (auto simp: reconnectToServer_def Let_def)
qed

theorem one_reconnection_timer_witness:
  "timers_of ''0123456789ab'' one_disconnected \<noteq> [] \<and>
   length (timers_of ''0123456789ab'' one_disconnected) \<le> 1 \<and>
   reconnectToServer 0 one_disconnected = one_disconnected"
proof -
  have a: "id' (heap one_disconnected 0) = ''0123456789ab''" by code_simp
  have b: "timers_of ''0123456789ab'' one_disconnected \<noteq> []" by code_simp
  show ?thesis
    using a b
      one_reconnection_timer [of "''0123456789ab''" example_env
        "[ConnectResolves 0 ''0123456789ab'' 1, ConnectResolves 1 ''cdefghijklmn'' 2,
          ClientDisconnect 0]" 0, folded one_disconnected_def]
    by simp
qed

subsection \<open>The flag \<^verbatim>\<open>failureNotified\<close> and the OFFLINE and ONLINE alerts\<close>

lemma emit_fst:
  "fst (emitHookWarning E t m) =
     (if webhook E (hookCalls m) = Accepted then None else Some (HookError t))"
  by (simp add: emitHookWarning_def Let_def split: delivery.splits)

lemma emit_alerts':
  "alerts (snd (emitHookWarning E t m)) =
     alerts m @ (if webhook E (hookCalls m) = Accepted then [t] else [])"
  by (simp add: emitHookWarning_def Let_def split: delivery.splits)







lemma heap_tryToConnect [simp]: "heap (tryToConnect E k m) = heap m"
  by (simp add: tryToConnect_def Let_def)

lemma heap_startupFailed [simp]: "heap (snd (startupFailed E k m)) = heap m"
  by (simp add: startupFailed_def Let_def case_prod_unfold split: option.splits)

lemma heap_rejected [simp]: "heap (snd (rejected E a m)) = heap m"
  by (simp add: rejected_def split: origin.splits)









lemma emitted_append [simp]: "emitted m (m'\<lparr>alerts := alerts m @ xs\<rparr>) = xs"
  by (simp add: emitted_def)


lemma alertText_assign [simp]:
  "url (f (heap m x)) = url (heap m x) \<Longrightarrow> ip (f (heap m x)) = ip (heap m x) \<Longrightarrow>
   alertText E ev (assign x f m) r = alertText E ev m r"
  by (simp add: alertText_def)

lemma alertText_races [simp]: "alertText E ev (m\<lparr>races := ra\<rparr>) r = alertText E ev m r"
  by (simp add: alertText_def)









subsection \<open>Particular runs\<close>

text \<open>
  C3. A reconnect event with the same-session indicator true arrives for host 0 of
  \<open>one_disconnected\<close>, whose \<^verbatim>\<open>failureNotified\<close> is set. The template literal of
  \<^verbatim>\<open>_onReconnection\<close> reads \<^verbatim>\<open>ip\<close>, which is bound nowhere: the handler throws
  a ReferenceError, no MEDIA_SERVER_ONLINE alert is emitted and the flag stays set. The
  registry is not touched.
\<close>

theorem same_session_reconnect_throws:
  "failureNotified (heap one_disconnected 0) \<and>
   fst (step example_env (ClientReconnected 0 True) one_disconnected) = Some (ReferenceError ''ip'') \<and>
   alerts (snd (step example_env (ClientReconnected 0 True) one_disconnected)) = alerts one_disconnected \<and>
   failureNotified (heap (snd (step example_env (ClientReconnected 0 True) one_disconnected)) 0) \<and>
   hosts (snd (step example_env (ClientReconnected 0 True) one_disconnected)) = hosts one_disconnected"
  by code_simp

text \<open>
  C5. With the same media server configured twice, both calls of \<^verbatim>\<open>tryToConnect\<close>
  pass the \<^verbatim>\<open>_hostStarted\<close> guard before either connection is made; when both
  connections succeed the registry holds two entries for one (url, address) pair.
\<close>

theorem duplicate_endpoints:
  "endpoints (run duplicate_env
      [ConnectResolves 0 ''0123456789ab'' 1, ConnectResolves 1 ''cdefghijklmn'' 2]
      (startHosts duplicate_env)) =
     [(''ws://kms1:8888/kurento'', ''10.0.0.1''), (''ws://kms1:8888/kurento'', ''10.0.0.1'')] \<and>
   \<not> distinct (endpoints (run duplicate_env
      [ConnectResolves 0 ''0123456789ab'' 1, ConnectResolves 1 ''cdefghijklmn'' 2]
      (startHosts duplicate_env)))"
  by code_simp

text \<open>
  C8. When the request to the web hook throws, \<^verbatim>\<open>emitHookWarning\<close> throws. In the
  \<^verbatim>\<open>catch\<close> block of \<^verbatim>\<open>tryToConnect\<close> this happens after \<^verbatim>\<open>retries\<close> was
  incremented and before \<^verbatim>\<open>startupFailureNotified\<close> is set and the retry scheduled:
  the first failed connection attempt of the only configured host ends the start-up
  retries for good, although the number of retries is unbounded.
\<close>

theorem hook_exception_surfaces:
  "fst (emitHookWarning throwing_env ''text'' (startHosts throwing_env)) = Some (HookError ''text'') \<and>
   fst (step throwing_env (ConnectRejects 0) (startHosts throwing_env)) =
     Some (HookError ''monitor triggered STARTUP_CONNECT_FAILURE for Kurento ws://kms1:8888/kurento 10.0.0.1'') \<and>
   scheduled (snd (step throwing_env (ConnectRejects 0) (startHosts throwing_env))) = [] \<and>
   map retries (tentativeHosts (snd (step throwing_env (ConnectRejects 0) (startHosts throwing_env)))) = [1] \<and>
   map startupFailureNotified
     (tentativeHosts (snd (step throwing_env (ConnectRejects 0) (startHosts throwing_env)))) = [False]"
  by code_simp

text \<open>
  C9. In \<open>reconnected_once\<close> race 2 has been lost to its timeout and host 0 is
  registered with client 5, on which its listeners are. When the connection attempt of
  race 2 succeeds afterwards with client 9, the callback assigns \<^verbatim>\<open>host.client\<close>: the
  registered host now carries client 9.
\<close>

theorem late_connect_overwrites_client:
  "failOverDone (races reconnected_once ! 2) \<and>
   hosts reconnected_once = [1, 0] \<and>
   client (heap reconnected_once 0) = 5 \<and>
   hosts (run example_env [ConnectResolves 2 [] 9] reconnected_once) = [1, 0] \<and>
   client (heap (run example_env [ConnectResolves 2 [] 9] reconnected_once) 0) = 9 \<and>
   listeners (run example_env [ConnectResolves 2 [] 9] reconnected_once) = [(1, 0), (2, 1), (5, 0)]"
  by code_simp

subsection \<open>The health check\<close>

lemma probe_failure:
  assumes "\<forall>n. webhook E n = Accepted" "probing r m"
  shows "alerts (snd (step E (ProbeSettles r False) m)) =
           alerts m @ (if healthcheckFailureNotified (heap m r) then []
                       else [alertText E ''WS_CONN_UNHEALTHY'' m r])"
    and "healthcheckFailureNotified (heap (snd (step E (ProbeSettles r False) m)) r)"
    and "probing r (snd (step E (ProbeSettles r False) m))"
    and "alertText E ev (snd (step E (ProbeSettles r False) m)) r = alertText E ev m r"
  using assms
  by (simp_all add: probing_def healthcheckTick_def healthcheckFailed_def case_prod_unfold
      emit_fst emit_alerts' alertText_def)

lemma probe_success:
  assumes "\<forall>n. webhook E n = Accepted" "probing r m"
  shows "alerts (snd (step E (ProbeSettles r True) m)) =
           alerts m @ (if healthcheckFailureNotified (heap m r)
                       then [alertText E ''WS_CONN_HEALTHY'' m r] else [])"
    and "\<not> healthcheckFailureNotified (heap (snd (step E (ProbeSettles r True) m)) r)"
    and "probing r (snd (step E (ProbeSettles r True) m))"
    and "alertText E ev (snd (step E (ProbeSettles r True) m)) r = alertText E ev m r"
  using assms
  by (simp_all add: probing_def healthcheckTick_def healthcheckFailed_def case_prod_unfold
      emit_fst emit_alerts' alertText_def)

lemma failures_when_notified:
  assumes "\<forall>n. webhook E n = Accepted"
  shows "probing r m \<Longrightarrow> healthcheckFailureNotified (heap m r) \<Longrightarrow>
         alerts (run E (replicate n (ProbeSettles r False)) m) = alerts m \<and>
         healthcheckFailureNotified (heap (run E (replicate n (ProbeSettles r False)) m) r) \<and>
         probing r (run E (replicate n (ProbeSettles r False)) m) \<and>
         (\<forall>ev. alertText E ev (run E (replicate n (ProbeSettles r False)) m) r = alertText E ev m r)"
proof (induction n arbitrary: m)
  case 0
  then show ?case by simp
next
  case (Suc n)
  show ?case
    using Suc.IH [OF probe_failure(3) [OF assms Suc.prems(1)] probe_failure(2) [OF assms Suc.prems(1)]]
      probe_failure(1,4) [OF assms Suc.prems(1)] Suc.prems(2)
    by simp
qed

lemma successes_when_clear:
  assumes "\<forall>n. webhook E n = Accepted"
  shows "probing r m \<Longrightarrow> \<not> healthcheckFailureNotified (heap m r) \<Longrightarrow>
         alerts (run E (replicate n (ProbeSettles r True)) m) = alerts m"
proof (induction n arbitrary: m)
  case 0
  then show ?case by simp
next
  case (Suc n)
  show ?case
    using Suc.IH [OF probe_success(3) [OF assms Suc.prems(1)] probe_success(2) [OF assms Suc.prems(1)]]
      probe_success(1) [OF assms Suc.prems(1)] Suc.prems(2)
    by simp
qed

text \<open>
  The health check when the web hook takes every request. The health check of host
  \<open>r\<close> is running and its flag is clear. Then a run of \<open>N \<ge> 1\<close> failed probes emits exactly one
  WS_CONN_UNHEALTHY alert, already present after the first failure; the first probe
  that succeeds after the run emits exactly one WS_CONN_HEALTHY alert, and further
  successes emit nothing; successes with the flag clear emit nothing.
\<close>

theorem probe_alerts_once:
  assumes "\<forall>n. webhook E n = Accepted" and "probing r m"
    and "\<not> healthcheckFailureNotified (heap m r)" and "1 \<le> N"
  shows "alerts (run E [ProbeSettles r False] m) = alerts m @ [alertText E ''WS_CONN_UNHEALTHY'' m r] \<and>
         alerts (run E (replicate N (ProbeSettles r False)) m) =
           alerts m @ [alertText E ''WS_CONN_UNHEALTHY'' m r] \<and>
         alerts (run E (replicate N (ProbeSettles r False) @ replicate (Suc K) (ProbeSettles r True)) m) =
           alerts m @ [alertText E ''WS_CONN_UNHEALTHY'' m r, alertText E ''WS_CONN_HEALTHY'' m r] \<and>
         alerts (run E (replicate K (ProbeSettles r True)) m) = alerts m"
proof -
  let ?m1 = "snd (step E (ProbeSettles r False) m)"
  obtain n where N: "N = Suc n" using assms(4) by (cases N) auto
  let ?mN = "run E (replicate n (ProbeSettles r False)) ?m1"
  have one: "alerts ?m1 = alerts m @ [alertText E ''WS_CONN_UNHEALTHY'' m r]"
    using probe_failure(1) [OF assms(1,2)] assms(3) by simp
  have rest: "alerts ?mN = alerts ?m1" "healthcheckFailureNotified (heap ?mN r)" "probing r ?mN"
    "alertText E ''WS_CONN_HEALTHY'' ?mN r = alertText E ''WS_CONN_HEALTHY'' m r"
    using failures_when_notified [OF assms(1) probe_failure(3) [OF assms(1,2)]
        probe_failure(2) [OF assms(1,2)], of n]
      probe_failure(4) [OF assms(1,2)]
    by simp_all
  let ?mS = "snd (step E (ProbeSettles r True) ?mN)"
  have ok: "alerts ?mS = alerts ?mN @ [alertText E ''WS_CONN_HEALTHY'' m r]"
    using probe_success(1) [OF assms(1) rest(3)] rest(2,4) by simp
  have more: "alerts (run E (replicate K (ProbeSettles r True)) ?mS) = alerts ?mS"
    by (rule successes_when_clear [OF assms(1) probe_success(3) [OF assms(1) rest(3)]
          probe_success(2) [OF assms(1) rest(3)]])
  show ?thesis
    using one rest(1) ok more successes_when_clear [OF assms(1,2,3), of K]
    by (simp add: N)
qed

theorem probe_alerts_once_witness:
  "(\<forall>n. webhook example_env n = Accepted) \<and> probing 0 two_connected \<and>
   \<not> healthcheckFailureNotified (heap two_connected 0) \<and> (1::nat) \<le> 3 \<and>
   alerts (run example_env (replicate 3 (ProbeSettles 0 False) @ replicate (Suc 1) (ProbeSettles 0 True))
             two_connected) =
     alerts two_connected @
       [alertText example_env ''WS_CONN_UNHEALTHY'' two_connected 0,
        alertText example_env ''WS_CONN_HEALTHY'' two_connected 0]"
proof -
  have a: "\<forall>n. webhook example_env n = Accepted" by (simp add: example_env_def)
  have b: "probing 0 two_connected" by code_simp
  have c: "\<not> healthcheckFailureNotified (heap two_connected 0)" by code_simp
  have d: "(1::nat) \<le> 3" by simp
  show ?thesis
    using a b c probe_alerts_once [OF a b c d, of 1] by simp
qed

subsection \<open>Bounded start-up retries\<close>

lemma filter_update_length:
  "a < length xs \<Longrightarrow>
   length (filter P (xs[a := y])) + (if P (xs ! a) then 1 else 0) =
   length (filter P xs) + (if P y then 1 else 0)"
proof (induction xs arbitrary: a)
  case Nil
  then show ?case by simp
next
  case (Cons x xs)
  then show ?case by (cases a) auto
qed

lemma startup_invI:
  assumes "tentativeHosts m = [\<lparr>url = u, ip = i, retries = k, startupFailureNotified = (0 < k)\<rparr>]"
    and "hosts m = []" "listeners m = []" "intervals m = []" "next_ref m = 0"
    and "\<forall>x \<in> set (races m). origin x = Startup 0"
    and "alerts m = (if k = 0 then [] else [hookText E ''STARTUP_CONNECT_FAILURE'' u i])"
    and "length (races m) = k + length (filter (\<lambda>x. \<not> settled x) (races m))"
    and "length (filter (\<lambda>x. \<not> settled x) (races m)) = 1 \<and> scheduled m = [] \<and> k < 2 \<or>
         length (filter (\<lambda>x. \<not> settled x) (races m)) = 0 \<and> scheduled m = [0] \<and> 1 \<le> k \<and> k \<le> 2 \<or>
         length (filter (\<lambda>x. \<not> settled x) (races m)) = 0 \<and> scheduled m = [] \<and> k = 2"
  shows "startup_inv E u i m"
  using assms by (simp add: startup_inv_def Let_def)

lemma startup_invD:
  assumes "startup_inv E u i m"
  obtains k where
    "tentativeHosts m = [\<lparr>url = u, ip = i, retries = k, startupFailureNotified = (0 < k)\<rparr>]"
    "hosts m = []" "listeners m = []" "intervals m = []" "next_ref m = 0"
    "\<forall>x \<in> set (races m). origin x = Startup 0"
    "alerts m = (if k = 0 then [] else [hookText E ''STARTUP_CONNECT_FAILURE'' u i])"
    "length (races m) = k + length (filter (\<lambda>x. \<not> settled x) (races m))"
    "length (filter (\<lambda>x. \<not> settled x) (races m)) = 1 \<and> scheduled m = [] \<and> k < 2 \<or>
     length (filter (\<lambda>x. \<not> settled x) (races m)) = 0 \<and> scheduled m = [0] \<and> 1 \<le> k \<and> k \<le> 2 \<or>
     length (filter (\<lambda>x. \<not> settled x) (races m)) = 0 \<and> scheduled m = [] \<and> k = 2"
proof -
  obtain t where t: "tentativeHosts m = [t]"
    using assms by (cases "tentativeHosts m") (auto simp: startup_inv_def Let_def)
  have "t = \<lparr>url = u, ip = i, retries = retries t, startupFailureNotified = (0 < retries t)\<rparr>"
    using assms t by (cases t) (simp add: startup_inv_def Let_def)
  then show ?thesis
    using assms t that [of "retries t"] by (simp add: startup_inv_def Let_def)
qed

lemma startup_inv_start:
  assumes "KMS_ARRAY E = [(u, i)]" "NOF_STARTUP_CONNECTION_RETRIES E = 2"
  shows "startup_inv E u i (startHosts E)"
  using assms
  by (simp add: startHosts_def Monitor_def tryToConnect_def hostStarted_def startup_inv_def
      settled_def numeral_eq_enat)

lemma startup_inv_late:
  assumes "startup_inv E u i m" "a < length (races m)" "settled (races m ! a)"
    "settled x" "origin x = origin (races m ! a)"
  shows "startup_inv E u i (m\<lparr>races := (races m)[a := x]\<rparr>) \<and>
         retries (tentativeHosts (m\<lparr>races := (races m)[a := x]\<rparr>) ! 0) = retries (tentativeHosts m ! 0)"
proof -
  have "length (filter (\<lambda>x. \<not> settled x) ((races m)[a := x])) =
        length (filter (\<lambda>x. \<not> settled x) (races m))"
    using filter_update_length [OF assms(2), of "\<lambda>x. \<not> settled x" x] assms(3,4) by simp
  moreover have "\<forall>y \<in> set ((races m)[a := x]). origin y = Startup 0"
    using assms(1,2,5) set_update_subset_insert [of "races m" a x]
    by (auto simp: startup_inv_def Let_def)
  ultimately show ?thesis
    using assms(1) by (simp add: startup_inv_def Let_def)
qed

lemma startup_inv_failed:
  assumes "startup_inv E u i m" "a < length (races m)" "\<not> settled (races m ! a)"
    "settled x" "origin x = origin (races m ! a)" "\<forall>n. webhook E n = Accepted"
  shows "startup_inv E u i (snd (startupFailed E 0 (m\<lparr>races := (races m)[a := x]\<rparr>))) \<and>
         retries (tentativeHosts (snd (startupFailed E 0 (m\<lparr>races := (races m)[a := x]\<rparr>))) ! 0) =
           Suc (retries (tentativeHosts m ! 0))"
proof -
  let ?P = "\<lambda>x. \<not> settled x"
  let ?m1 = "m\<lparr>races := (races m)[a := x]\<rparr>"
  let ?m2 = "snd (startupFailed E 0 ?m1)"
  from assms(1) obtain k where J:
    "tentativeHosts m = [\<lparr>url = u, ip = i, retries = k, startupFailureNotified = (0 < k)\<rparr>]"
    "hosts m = []" "listeners m = []" "intervals m = []" "next_ref m = 0"
    "\<forall>x \<in> set (races m). origin x = Startup 0"
    "alerts m = (if k = 0 then [] else [hookText E ''STARTUP_CONNECT_FAILURE'' u i])"
    "length (races m) = k + length (filter ?P (races m))"
    "length (filter ?P (races m)) = 1 \<and> scheduled m = [] \<and> k < 2 \<or>
     length (filter ?P (races m)) = 0 \<and> scheduled m = [0] \<and> 1 \<le> k \<and> k \<le> 2 \<or>
     length (filter ?P (races m)) = 0 \<and> scheduled m = [] \<and> k = 2"
    by (rule startup_invD)
  have p: "Suc (length (filter ?P ((races m)[a := x]))) = length (filter ?P (races m))"
    using filter_update_length [OF assms(2), of ?P x] assms(3,4) by simp
  have o: "\<forall>y \<in> set ((races m)[a := x]). origin y = Startup 0"
    using J(6) assms(2,5) set_update_subset_insert [of "races m" a x] by auto
  have t2: "tentativeHosts ?m2 =
      [\<lparr>url = u, ip = i, retries = Suc k, startupFailureNotified = (0 < Suc k)\<rparr>]"
    using assms(6)
    by (simp add: startupFailed_def Let_def case_prod_unfold emit_fst assignTentative_def J(1))
  have a2: "alerts ?m2 = (if Suc k = 0 then [] else [hookText E ''STARTUP_CONNECT_FAILURE'' u i])"
    using assms(6) J(7)
    by (simp add: startupFailed_def Let_def case_prod_unfold emit_fst emit_alerts'
        assignTentative_def J(1))
  have s2: "scheduled ?m2 = scheduled m @ [0]"
    using assms(6)
    by (simp add: startupFailed_def Let_def case_prod_unfold emit_fst assignTentative_def)
  have f2: "hosts ?m2 = []" "listeners ?m2 = []" "intervals ?m2 = []"
    "next_ref ?m2 = 0" "races ?m2 = (races m)[a := x]"
    using assms(6) J(2-5)
    by (simp_all add: startupFailed_def Let_def case_prod_unfold emit_fst assignTentative_def)
  have "startup_inv E u i ?m2"
    using J(8,9) p o by (intro startup_invI [OF t2 f2(1-4) _ a2]) (auto simp: f2(5) s2)
  then show ?thesis by (simp add: t2 J(1))
qed

lemma startup_inv_timeout:
  assumes "startup_inv E u i m" "NOF_STARTUP_CONNECTION_RETRIES E = 2"
  shows "startup_inv E u i (snd (step E (TimeoutFires j) m)) \<and>
         retries (tentativeHosts (snd (step E (TimeoutFires j) m)) ! 0) = retries (tentativeHosts m ! 0)"
proof (cases "j \<in> set (scheduled m) \<and> j < length (tentativeHosts m)")
  case False
  then show ?thesis using assms(1) by auto
next
  case True
  let ?P = "\<lambda>x. \<not> settled x"
  from assms(1) obtain k where J:
    "tentativeHosts m = [\<lparr>url = u, ip = i, retries = k, startupFailureNotified = (0 < k)\<rparr>]"
    "hosts m = []" "listeners m = []" "intervals m = []" "next_ref m = 0"
    "\<forall>x \<in> set (races m). origin x = Startup 0"
    "alerts m = (if k = 0 then [] else [hookText E ''STARTUP_CONNECT_FAILURE'' u i])"
    "length (races m) = k + length (filter ?P (races m))"
    "length (filter ?P (races m)) = 1 \<and> scheduled m = [] \<and> k < 2 \<or>
     length (filter ?P (races m)) = 0 \<and> scheduled m = [0] \<and> 1 \<le> k \<and> k \<le> 2 \<or>
     length (filter ?P (races m)) = 0 \<and> scheduled m = [] \<and> k = 2"
    by (rule startup_invD)
  have j: "j = 0" using True J(1) by simp
  have sh: "length (filter ?P (races m)) = 0" "scheduled m = [0]" "1 \<le> k" "k \<le> 2"
    using True J(9) j by auto
  let ?m' = "snd (step E (TimeoutFires j) m)"
  have m': "?m' = tryToConnect E 0 (m\<lparr>scheduled := []\<rparr>)"
    using True j sh(2) by simp
  have "startup_inv E u i ?m'"
    unfolding m'
    using J sh assms(2)
    by (intro startup_invI [where k = k])
      (auto simp: tryToConnect_def Let_def hostStarted_def settled_def numeral_eq_enat)
  moreover have "retries (tentativeHosts ?m' ! 0) = retries (tentativeHosts m ! 0)"
    unfolding m' by (simp add: tryToConnect_def Let_def)
  ultimately show ?thesis by simp
qed

lemma startup_inv_step:
  assumes "startup_inv E u i m" "NOF_STARTUP_CONNECTION_RETRIES E = 2"
    "\<forall>n. webhook E n = Accepted" "connect_fails e"
  shows "startup_inv E u i (snd (step E e m)) \<and>
         retries (tentativeHosts m ! 0) \<le> retries (tentativeHosts (snd (step E e m)) ! 0)"
proof (cases e)
  case (TimeoutFires j)
  then show ?thesis using startup_inv_timeout [OF assms(1,2), of j] by simp
next
  case (ConnectResolves a tok c)
  then show ?thesis using assms(4) by simp
next
  case (ConnectRejects a)
  show ?thesis
  proof (cases "a < length (races m) \<and> \<not> connectDone (races m ! a)")
    case False
    then show ?thesis using ConnectRejects assms(1) by auto
  next
    case True
    let ?x = "(races m ! a)\<lparr>connectDone := True\<rparr>"
    have x: "settled ?x" "origin ?x = origin (races m ! a)" by (simp_all add: settled_def)
    have o: "origin (races m ! a) = Startup 0"
      using assms(1) True by (auto simp: startup_inv_def Let_def)
    show ?thesis
    proof (cases "failOverDone (races m ! a)")
      case late: True
      then have "settled (races m ! a)" by (simp add: settled_def)
      from startup_inv_late [OF assms(1) _ this x] True late ConnectRejects
      show ?thesis by simp
    next
      case False
      then have "\<not> settled (races m ! a)" using True by (simp add: settled_def)
      from startup_inv_failed [OF assms(1) _ this x assms(3)] True False ConnectRejects o
      show ?thesis by (simp add: rejected_def)
    qed
  qed
next
  case (FailOverFires a)
  show ?thesis
  proof (cases "a < length (races m) \<and> \<not> failOverDone (races m ! a)")
    case False
    then show ?thesis using FailOverFires assms(1) by auto
  next
    case True
    let ?x = "(races m ! a)\<lparr>failOverDone := True\<rparr>"
    have x: "settled ?x" "origin ?x = origin (races m ! a)" by (simp_all add: settled_def)
    have o: "origin (races m ! a) = Startup 0"
      using assms(1) True by (auto simp: startup_inv_def Let_def)
    show ?thesis
    proof (cases "connectDone (races m ! a)")
      case late: True
      then have "settled (races m ! a)" by (simp add: settled_def)
      from startup_inv_late [OF assms(1) _ this x] True late FailOverFires
      show ?thesis by simp
    next
      case False
      then have "\<not> settled (races m ! a)" using True by (simp add: settled_def)
      from startup_inv_failed [OF assms(1) _ this x assms(3)] True False FailOverFires o
      show ?thesis by (simp add: rejected_def)
    qed
  qed
next
  case (IntervalFires t)
  then show ?thesis using assms(1) by (simp add: startup_inv_def Let_def)
next
  case (ClientDisconnect n)
  then show ?thesis using assms(1) by (simp add: startup_inv_def Let_def)
next
  case (ClientReconnected n s)
  then show ?thesis using assms(1) by (simp add: startup_inv_def Let_def)
next
  case (ProbeSettles r ok)
  then show ?thesis using assms(1) by (simp add: startup_inv_def Let_def)
qed

lemma startup_inv_run:
  assumes "NOF_STARTUP_CONNECTION_RETRIES E = 2" "\<forall>n. webhook E n = Accepted"
  shows "startup_inv E u i m \<Longrightarrow> list_all connect_fails es \<Longrightarrow>
         startup_inv E u i (run E es m) \<and>
         retries (tentativeHosts m ! 0) \<le> retries (tentativeHosts (run E es m) ! 0)"
proof (induction es arbitrary: m)
  case Nil
  then show ?case by simp
next
  case (Cons e es)
  from Cons.prems have e: "connect_fails e" and es: "list_all connect_fails es" by simp_all
  note st = startup_inv_step [OF Cons.prems(1) assms e]
  from Cons.IH [OF st [THEN conjunct1] es] st show ?case by simp
qed

lemma startup_inv_bounds:
  assumes "startup_inv E u i m"
  shows "length (races m) \<le> 2"
    and "alerts m = (if failures m = 0 then []
                     else [hookText E ''STARTUP_CONNECT_FAILURE'' u i])"
    and "retries (tentativeHosts m ! 0) = failures m"
    and "failures m \<le> 2"
    and "failures m = 2 \<Longrightarrow> length (races m) = 2"
    and "failures m < 2 \<Longrightarrow>
           length (races m) = failures m + 1 \<and> scheduled m = [] \<or>
           length (races m) = failures m \<and> scheduled m = [0]"
proof -
  have "failures m + length (filter (\<lambda>x. \<not> settled x) (races m)) = length (races m)"
    unfolding failures_def by (rule sum_length_filter_compl)
  then have k: "retries (tentativeHosts m ! 0) = failures m"
    using assms by (simp add: startup_inv_def Let_def)
  show "retries (tentativeHosts m ! 0) = failures m" by (rule k)
  show "length (races m) \<le> 2" using assms by (auto simp: startup_inv_def Let_def)
  show "alerts m = (if failures m = 0 then [] else [hookText E ''STARTUP_CONNECT_FAILURE'' u i])"
    using assms k by (auto simp: startup_inv_def Let_def)
  show "failures m \<le> 2" using assms k by (auto simp: startup_inv_def Let_def)
  show "failures m = 2 \<Longrightarrow> length (races m) = 2"
    using assms k by (auto simp: startup_inv_def Let_def)
  show "failures m < 2 \<Longrightarrow>
          length (races m) = failures m + 1 \<and> scheduled m = [] \<or>
          length (races m) = failures m \<and> scheduled m = [0]"
    using assms k by (auto simp: startup_inv_def Let_def)
qed

text \<open>
  Start-up when the web hook takes every request. One host is configured,
  \<^verbatim>\<open>kurentoStartupRetries\<close> is 2 and no connection attempt ever succeeds. Then,
  whatever the order of the refusals, time-outs and timers: \<^verbatim>\<open>retries\<close> counts the
  attempts that have failed; at most two attempts are ever made; no alert is emitted
  before the first failure and, from the first failure on, exactly one
  STARTUP_CONNECT_FAILURE alert has been emitted in total; while fewer than two
  attempts have failed, the next attempt is in flight or its retry timer is pending; and
  once the second attempt has failed, whatever arrives afterwards starts no further
  attempt and emits no further alert.
\<close>

theorem startup_gives_up:
  assumes "KMS_ARRAY E = [(u, i)]" and "NOF_STARTUP_CONNECTION_RETRIES E = 2"
    and "\<forall>n. webhook E n = Accepted"
    and "list_all connect_fails es" and "list_all connect_fails es'"
  shows "retries (tentativeHosts (run E es (startHosts E)) ! 0) = failures (run E es (startHosts E)) \<and>
         length (races (run E es (startHosts E))) \<le> 2 \<and>
         alerts (run E es (startHosts E)) =
           (if failures (run E es (startHosts E)) = 0 then []
            else [hookText E ''STARTUP_CONNECT_FAILURE'' u i]) \<and>
         (failures (run E es (startHosts E)) < 2 \<longrightarrow>
            length (races (run E es (startHosts E))) = failures (run E es (startHosts E)) + 1 \<and>
              scheduled (run E es (startHosts E)) = [] \<or>
            length (races (run E es (startHosts E))) = failures (run E es (startHosts E)) \<and>
              scheduled (run E es (startHosts E)) = [0]) \<and>
         (failures (run E es (startHosts E)) = 2 \<longrightarrow>
            length (races (run E (es @ es') (startHosts E))) = 2 \<and>
            alerts (run E (es @ es') (startHosts E)) = [hookText E ''STARTUP_CONNECT_FAILURE'' u i])"
proof -
  let ?m = "run E es (startHosts E)"
  let ?m' = "run E es' ?m"
  have J: "startup_inv E u i ?m"
    using startup_inv_run [OF assms(2,3) startup_inv_start [OF assms(1,2)] assms(4)] by simp
  have J': "startup_inv E u i ?m'"
    and mono: "retries (tentativeHosts ?m ! 0) \<le> retries (tentativeHosts ?m' ! 0)"
    using startup_inv_run [OF assms(2,3) J assms(5)] by simp_all
  have "failures ?m' = 2" if "failures ?m = 2"
    using that mono startup_inv_bounds(3,4) [OF J'] startup_inv_bounds(3) [OF J] by simp
  then show ?thesis
    using startup_inv_bounds [OF J] startup_inv_bounds(2,5) [OF J'] by simp
qed

theorem startup_gives_up_witness:
  "KMS_ARRAY two_retries_env = [(''ws://kms1:8888/kurento'', ''10.0.0.1'')] \<and>
   NOF_STARTUP_CONNECTION_RETRIES two_retries_env = 2 \<and>
   (\<forall>n. webhook two_retries_env n = Accepted) \<and>
   list_all connect_fails two_failures \<and> list_all connect_fails aftermath \<and>
   failures (run two_retries_env two_failures (startHosts two_retries_env)) = 2 \<and>
   length (races (run two_retries_env (two_failures @ aftermath) (startHosts two_retries_env))) = 2 \<and>
   alerts (run two_retries_env (two_failures @ aftermath) (startHosts two_retries_env)) =
     [hookText two_retries_env ''STARTUP_CONNECT_FAILURE'' ''ws://kms1:8888/kurento'' ''10.0.0.1'']"
proof -
  have a: "KMS_ARRAY two_retries_env = [(''ws://kms1:8888/kurento'', ''10.0.0.1'')]"
    and b: "NOF_STARTUP_CONNECTION_RETRIES two_retries_env = 2"
    and c: "\<forall>n. webhook two_retries_env n = Accepted"
    by (simp_all add: two_retries_env_def)
  have d: "list_all connect_fails two_failures" and e: "list_all connect_fails aftermath"
    by (simp_all add: two_failures_def aftermath_def)
  have f: "failures (run two_retries_env two_failures (startHosts two_retries_env)) = 2"
    by code_simp
  show ?thesis
    using a b c d e f startup_gives_up [OF a b c d e] by simp
qed

subsection \<open>The probe\<close>

lemma probe_run_Nil [simp]: "probe_run [] p = p"
  by (simp add: probe_run_def)

lemma probe_run_Cons [simp]: "probe_run (e # es) p = probe_run es (snd (probe_step e p))"
  by (simp add: probe_run_def)

lemma probe_run_snoc [simp]: "probe_run (es @ [e]) p = snd (probe_step e (probe_run es p))"
  by (simp add: probe_run_def)

lemma finished_step: "finished p \<Longrightarrow> snd (probe_step e p) = p"
  by (cases e) (auto simp: finished_def split: message.splits)

lemma waiting_Open:
  "waiting p \<Longrightarrow> waiting (snd (probe_step Open p)) \<and> onMessage (snd (probe_step Open p))"
  by (auto simp: waiting_def)

lemma waiting_Close:
  "waiting p \<Longrightarrow> finished (snd (probe_step Close p)) \<and> promise (snd (probe_step Close p)) = Rejected \<and>
     onMessage (snd (probe_step Close p)) = onMessage p"
  by (simp add: waiting_def finished_def settle_def destroyWs_def removeWsListeners_def)

lemma waiting_Error:
  "waiting p \<Longrightarrow> finished (snd (probe_step Error p)) \<and> promise (snd (probe_step Error p)) = Rejected \<and>
     onMessage (snd (probe_step Error p)) = onMessage p"
  by (simp add: waiting_def finished_def settle_def destroyWs_def removeWsListeners_def)

lemma waiting_pong:
  "waiting p \<Longrightarrow> onMessage p \<Longrightarrow> matching d \<Longrightarrow>
   finished (snd (probe_step (Message d) p)) \<and> promise (snd (probe_step (Message d) p)) = Resolved \<and>
   onMessage (snd (probe_step (Message d) p))"
  by (cases d) (simp_all add: waiting_def finished_def settle_def destroyWs_def removeWsListeners_def)

lemma waiting_other:
  "\<not> (onMessage p \<and> matching d) \<Longrightarrow> snd (probe_step (Message d) p) = p"
  by (cases d) auto

lemma waiting_pending: "waiting p \<Longrightarrow> promise p = Pending"
  by (simp add: waiting_def)

lemma finished_settled: "finished p \<Longrightarrow> promise p \<noteq> Pending"
  by (simp add: finished_def)

lemma finished_not_waiting: "finished p \<Longrightarrow> \<not> waiting p"
  by (simp add: finished_def waiting_def)

lemma probe_step_shape:
  "waiting p \<or> finished p \<Longrightarrow> waiting (snd (probe_step e p)) \<or> finished (snd (probe_step e p))"
proof (cases "finished p")
  case True
  then show ?thesis by (simp add: finished_step)
next
  case False
  assume "waiting p \<or> finished p"
  then have w: "waiting p" using False by simp
  show ?thesis
  proof (cases e)
    case Open
    then show ?thesis using waiting_Open [OF w] by simp
  next
    case Close
    then show ?thesis using waiting_Close [OF w] by simp
  next
    case Error
    then show ?thesis using waiting_Error [OF w] by simp
  next
    case (Message d)
    then show ?thesis
      using waiting_pong [OF w, of d] waiting_other [of p d] w by (cases "onMessage p \<and> matching d") auto
  qed
qed

lemma probe_run_shape:
  "waiting p \<or> finished p \<Longrightarrow> waiting (probe_run es p) \<or> finished (probe_run es p)"
  by (induction es arbitrary: p) (simp_all add: probe_step_shape)

lemma probe_start_waiting: "waiting probeConnectionHealth"
  by (simp add: waiting_def probeConnectionHealth_def)

lemma probe_shape:
  "waiting (probe_run es probeConnectionHealth) \<or> finished (probe_run es probeConnectionHealth)"
  by (rule probe_run_shape) (simp add: probe_start_waiting)

lemma trace_inv_step:
  assumes "trace_inv es p" "waiting p \<or> finished p"
  shows "trace_inv (es @ [e]) (snd (probe_step e p))"
proof (cases "finished p")
  case True
  then show ?thesis
    using assms(1) finished_not_waiting [OF True] by (auto simp: finished_step trace_inv_def)
next
  case False
  then have w: "waiting p" using assms(2) by simp
  note pe = waiting_pending [OF w]
  show ?thesis
  proof (cases e)
    case Open
    then show ?thesis using waiting_Open [OF w] assms(1) waiting_pending [of "snd (probe_step Open p)"]
      by (auto simp: trace_inv_def)
  next
    case Close
    then show ?thesis using waiting_Close [OF w] assms(1) finished_settled [of "snd (probe_step Close p)"]
      waiting_pending [of "snd (probe_step Close p)"]
      by (auto simp: trace_inv_def)
  next
    case Error
    then show ?thesis using waiting_Error [OF w] assms(1) finished_settled [of "snd (probe_step Error p)"]
      waiting_pending [of "snd (probe_step Error p)"]
      by (auto simp: trace_inv_def)
  next
    case (Message d)
    show ?thesis
    proof (cases "onMessage p \<and> matching d")
      case True
      then show ?thesis
        using waiting_pong [OF w, of d] assms(1) Message
          waiting_pending [of "snd (probe_step (Message d) p)"]
        by (auto simp: trace_inv_def)
    next
      case False
      then show ?thesis
        using waiting_other [of p d] assms(1) Message pe by (auto simp: trace_inv_def)
    qed
  qed
qed

lemma probe_trace: "trace_inv es (probe_run es probeConnectionHealth)"
proof (induction es rule: rev_induct)
  case Nil
  then show ?case by (simp add: trace_inv_def probeConnectionHealth_def)
next
  case (snoc e es)
  then show ?case using trace_inv_step [OF snoc probe_shape [of es], of e] by simp
qed

text \<open>
  What the probe does get right. Whatever events the socket delivers: the probe resolves only if the
  connection opened and a pong matching the ping's id arrived; it rejects only if the
  socket reported an error or closed; whenever it has settled, \<^verbatim>\<open>ws.close()\<close> has been
  called and the listeners for open, close and error are removed, and the outcome no
  longer changes. While it is pending, an error or a close rejects it, a matching pong
  on the open connection resolves it, and every other event leaves it pending: the
  probe has no timer of its own.
\<close>

theorem probe_outcomes:
  "(promise (probe_run es probeConnectionHealth) = Resolved \<longrightarrow>
      Open \<in> set es \<and> (\<exists>d. matching d \<and> Message d \<in> set es)) \<and>
   (promise (probe_run es probeConnectionHealth) = Rejected \<longrightarrow> Close \<in> set es \<or> Error \<in> set es) \<and>
   (promise (probe_run es probeConnectionHealth) \<noteq> Pending \<longrightarrow>
      finished (probe_run es probeConnectionHealth) \<and>
      promise (probe_run (es @ [e]) probeConnectionHealth) = promise (probe_run es probeConnectionHealth)) \<and>
   (promise (probe_run es probeConnectionHealth) = Pending \<longrightarrow>
      promise (probe_run (es @ [Error]) probeConnectionHealth) = Rejected \<and>
      promise (probe_run (es @ [Close]) probeConnectionHealth) = Rejected \<and>
      promise (probe_run (es @ [Open]) probeConnectionHealth) = Pending \<and>
      (matching d \<and> Open \<in> set es \<longrightarrow>
         promise (probe_run (es @ [Message d]) probeConnectionHealth) = Resolved) \<and>
      (\<not> matching d \<longrightarrow> promise (probe_run (es @ [Message d]) probeConnectionHealth) = Pending))"
proof -
  let ?p = "probe_run es probeConnectionHealth"
  note sh = probe_shape [of es] and tr = probe_trace [of es, unfolded trace_inv_def]
  have res: "Open \<in> set es \<and> (\<exists>d. matching d \<and> Message d \<in> set es)" if "promise ?p = Resolved"
    using tr that by blast
  have fin: "finished ?p \<and> promise (snd (probe_step e ?p)) = promise ?p" if "promise ?p \<noteq> Pending"
    using sh that waiting_pending [of ?p] by (auto simp: finished_step)
  have pen: "promise (snd (probe_step Error ?p)) = Rejected \<and>
      promise (snd (probe_step Close ?p)) = Rejected \<and>
      promise (snd (probe_step Open ?p)) = Pending \<and>
      (matching d \<and> Open \<in> set es \<longrightarrow> promise (snd (probe_step (Message d) ?p)) = Resolved) \<and>
      (\<not> matching d \<longrightarrow> promise (snd (probe_step (Message d) ?p)) = Pending)"
    if "promise ?p = Pending"
  proof -
    have w: "waiting ?p" using sh that finished_settled [of ?p] by auto
    show ?thesis
      using waiting_Error [OF w] waiting_Close [OF w] waiting_Open [OF w]
        waiting_pending [of "snd (probe_step Open ?p)"] waiting_pong [OF w, of d]
        waiting_other [of ?p d] tr w that
      by auto
  qed
  show ?thesis using res tr fin pen by simp
qed

theorem probe_outcomes_witness:
  "promise (probe_run healthy_server probeConnectionHealth) = Resolved \<and>
   Open \<in> set healthy_server \<and> (\<exists>d. matching d \<and> Message d \<in> set healthy_server) \<and>
   finished (probe_run healthy_server probeConnectionHealth) \<and>
   promise (probe_run [Open] probeConnectionHealth) = Pending \<and>
   promise (probe_run ([Open] @ [Close]) probeConnectionHealth) = Rejected \<and>
   promise (probe_run ([Open] @ [Message (Reply (Some 1) (Some ''pong''))]) probeConnectionHealth) = Resolved \<and>
   promise (probe_run ([Open] @ [Message (Reply (Some 7) (Some ''pong''))]) probeConnectionHealth) = Pending"
proof -
  have a: "promise (probe_run healthy_server probeConnectionHealth) = Resolved" by code_simp
  have b: "promise (probe_run [Open] probeConnectionHealth) = Pending" by code_simp
  have c: "matching (Reply (Some 1) (Some ''pong''))" "Open \<in> set [Open]"
    "\<not> matching (Reply (Some 7) (Some ''pong''))" by simp_all
  show ?thesis
    using a b c probe_outcomes [of healthy_server Open "Reply (Some 1) (Some ''pong'')"]
      probe_outcomes [of "[Open]" Open "Reply (Some 1) (Some ''pong'')"]
      probe_outcomes [of "[Open]" Open "Reply (Some 7) (Some ''pong'')"]
    by simp
qed

text \<open>
  The probe has no timer: once the last event of the socket has arrived, the passing of
  time changes nothing.
\<close>

lemma probe_no_timer:
  assumes "\<forall>te \<in> set tes. fst te \<le> T" and "T \<le> T'"
  shows "probe_at T' tes = probe_at T tes"
proof -
  have "takeWhile (\<lambda>te. fst te \<le> T) tes = tes"
    using assms(1) by (simp add: takeWhile_eq_all_conv)
  moreover have "takeWhile (\<lambda>te. fst te \<le> T') tes = tes"
    using assms by (auto simp: takeWhile_eq_all_conv)
  ultimately show ?thesis unfolding probe_at_def by (simp only:)
qed

text \<open>
  C7. The single-probe operation does not settle within the failover timeout. At the
  silent server the connection opens after 10 ms and the ping is sent, but no pong ever
  arrives: when the failover timeout has passed, and ten times later, the promise is
  still pending, it has not been rejected, and \<^verbatim>\<open>ws.close()\<close> has not been called, so
  the side channel stays open.
\<close>

theorem probe_never_times_out:
  "pingSent (probe_at KMS_FAILOVER_TIMEOUT_MS silent_server) \<and>
   promise (probe_at KMS_FAILOVER_TIMEOUT_MS silent_server) = Pending \<and>
   promise (probe_at (10 * KMS_FAILOVER_TIMEOUT_MS) silent_server) = Pending \<and>
   \<not> closeCalled (probe_at (10 * KMS_FAILOVER_TIMEOUT_MS) silent_server) \<and>
   ws (probe_at (10 * KMS_FAILOVER_TIMEOUT_MS) silent_server)"
  by (simp add: probe_at_def silent_server_def KMS_FAILOVER_TIMEOUT_MS_def probeConnectionHealth_def)

subsection \<open>More on the web hook and on the races\<close>

text \<open>One call of \<^verbatim>\<open>emitHookWarning\<close> makes one request, whatever becomes of it: there
  is no retry.\<close>

lemma emit_once: "hookCalls (snd (emitHookWarning E t m)) = Suc (hookCalls m)"
  by (simp add: emitHookWarning_def Let_def split: delivery.splits)

text \<open>\<^verbatim>\<open>_onDisconnection\<close> is the one caller that catches what the hook throws: the flag
  is set and the reconnection timer started all the same.\<close>

lemma disconnection_survives_hook:
  "failureNotified (heap (onDisconnection E r m) r) \<and>
   reconnectionRoutine (onDisconnection E r m) (id' (heap m r)) \<noteq> None \<and>
   hookCalls (onDisconnection E r m) \<le> Suc (hookCalls m)"
  by (simp add: onDisconnection_def Let_def reconnectToServer_def emit_once split: option.splits)

text \<open>
  The loser of a start-up race is inert. A connection that succeeds after the
  \<^verbatim>\<open>failOver\<close> timer has fired builds a host object that nothing refers to, and
  leaves the monitor and every allocated host as they were.
\<close>

lemma late_startup_connect_inert:
  assumes "a < length (races m)" "origin (races m ! a) = Startup k"
    "failOverDone (races m ! a)" "\<not> connectDone (races m ! a)"
  shows "hosts (snd (step E (ConnectResolves a tok c) m)) = hosts m"
    and "reconnectionRoutine (snd (step E (ConnectResolves a tok c) m)) = reconnectionRoutine m"
    and "intervals (snd (step E (ConnectResolves a tok c) m)) = intervals m"
    and "listeners (snd (step E (ConnectResolves a tok c) m)) = listeners m"
    and "tentativeHosts (snd (step E (ConnectResolves a tok c) m)) = tentativeHosts m"
    and "scheduled (snd (step E (ConnectResolves a tok c) m)) = scheduled m"
    and "alerts (snd (step E (ConnectResolves a tok c) m)) = alerts m"
    and "r < next_ref m \<Longrightarrow> heap (snd (step E (ConnectResolves a tok c) m)) r = heap m r"
  using assms by (simp_all add: resolved_def connect_def)

text \<open>A \<^verbatim>\<open>failOver\<close> timer that fires after the connection was made, at start-up or in
  the reconnection loop, only marks the race.\<close>

lemma late_failover_inert:
  assumes "a < length (races m)" "connectDone (races m ! a)" "\<not> failOverDone (races m ! a)"
  shows "snd (step E (FailOverFires a) m) =
           m\<lparr>races := (races m)[a := (races m ! a)\<lparr>failOverDone := True\<rparr>]\<rparr>"
  using assms by simp

text \<open>In the reconnection loop the callback of the connection assigns the client of the
  host whether or not the race is still open.\<close>

lemma late_reconnect_assigns_client:
  assumes "a < length (races m)" "origin (races m ! a) = Reconnection r i u"
    "\<not> connectDone (races m ! a)"
  shows "client (heap (snd (step E (ConnectResolves a tok c) m)) r) = c"
  using assms
  by (simp add: resolved_def Let_def reconnected_def addHost_def case_prod_unfold
      split: option.splits)

text \<open>A reconnect event in the same session leaves the monitor as it is; when the flag is
  set it throws instead of emitting MEDIA_SERVER_ONLINE.\<close>

lemma same_session_reconnect:
  "onReconnection E True r m =
     (if failureNotified (heap m r) then Some (ReferenceError ''ip'') else None, m)"
  by (simp add: onReconnection_def resolve_def module_names_def)

subsection \<open>Start-up and health check when the web hook throws\<close>


text \<open>
  C6. The health check of the connected host is running and its flag is clear. The
  timer callback calls the hook before it sets \<^verbatim>\<open>healthcheckFailureNotified\<close>, and
  the hook is not guarded. When the request throws, three failed probes in a row make
  three requests and the flag is never set: the run is not reduced to one alert. When
  only the second request throws, a failed probe emits WS_CONN_UNHEALTHY and the
  success that follows, whose WS_CONN_HEALTHY request throws, lands in the
  \<^verbatim>\<open>catch\<close> block with the flag already cleared and emits WS_CONN_UNHEALTHY again.
\<close>

theorem probe_dedup_lost_when_hook_throws:
  "probing 0 (one_connected throwing_probe_env) \<and>
   \<not> healthcheckFailureNotified (heap (one_connected throwing_probe_env) 0) \<and>
   alerts (run throwing_probe_env (replicate 3 (ProbeSettles 0 False))
             (one_connected throwing_probe_env)) = [] \<and>
   hookCalls (run throwing_probe_env (replicate 3 (ProbeSettles 0 False))
                (one_connected throwing_probe_env)) = 3 \<and>
   \<not> healthcheckFailureNotified
        (heap (run throwing_probe_env (replicate 3 (ProbeSettles 0 False))
                 (one_connected throwing_probe_env)) 0) \<and>
   probing 0 (one_connected flaky_probe_env) \<and>
   alerts (run flaky_probe_env [ProbeSettles 0 False, ProbeSettles 0 True]
             (one_connected flaky_probe_env)) =
     [''monitor triggered WS_CONN_UNHEALTHY for Kurento ws://kms1:8888/kurento 10.0.0.1'',
      ''monitor triggered WS_CONN_UNHEALTHY for Kurento ws://kms1:8888/kurento 10.0.0.1'']"
  by code_simp

end
